theory Spec2Isabelle
  imports Complex_Main "HOL-Library.Word"
begin

unbundle bit_operations_syntax

section \<open>Data model\<close>

text \<open>
  A Python \<open>bytes\<close> value is a sequence of integers in \<open>range(256)\<close>: a list of
  8-bit words. Python's own integers are unbounded and are modelled as \<open>int\<close>;
  \<open>&\<close> on them is two's-complement conjunction, as \<open>AND\<close> on \<open>int\<close> is.
\<close>

type_synonym byte = "8 word"
type_synonym bytes = "byte list"

text \<open>
  \<open>bytes(xs)\<close> for a list of integers. Python raises \<open>ValueError\<close> on an element
  outside \<open>range(256)\<close>; the only lists the client hands to it are built from
  constants and from values masked with \<open>& 0xFF\<close> (lemma \<open>paddedBody_in_range\<close>
  below), where the conversion loses nothing (lemma \<open>toBytes_lossless\<close>).
\<close>

definition toBytes :: "int list \<Rightarrow> bytes" where
  "toBytes xs = map word_of_int xs"

text \<open>
  Python's slice \<open>xs[i:j]\<close> (step 1): a negative index counts from the end, and both
  ends are clipped to the sequence, so a slice never raises.
\<close>

definition sliceIndex :: "nat \<Rightarrow> int \<Rightarrow> nat" where
  "sliceIndex n i = (if i < 0 then nat (max 0 (int n + i)) else min (nat i) n)"

definition pySlice :: "'a list \<Rightarrow> int \<Rightarrow> int \<Rightarrow> 'a list" where
  "pySlice xs i j =
     (let lo = sliceIndex (length xs) i; hi = sliceIndex (length xs) j
      in take (hi - lo) (drop lo xs))"

text \<open>enums.py: the opcode bytes and the slider sub-selectors (both \<open>IntEnum\<close>).\<close>

datatype Command =
    Command_getHeadsetStatus | Command_getSliderValue | Command_getNoiseGateMode
  | Command_getActiveEqPreset | Command_getBalance | Command_getDefaultBalance
  | Command_getAlertVolume | Command_getMicEq | Command_getBatteryStatus

fun commandValue :: "Command \<Rightarrow> int" where
  "commandValue Command_getHeadsetStatus = 0x54"
| "commandValue Command_getSliderValue = 0x68"
| "commandValue Command_getNoiseGateMode = 0x6A"
| "commandValue Command_getActiveEqPreset = 0x6C"
| "commandValue Command_getBalance = 0x72"
| "commandValue Command_getDefaultBalance = 0x77"
| "commandValue Command_getAlertVolume = 0x7A"
| "commandValue Command_getMicEq = 0x7B"
| "commandValue Command_getBatteryStatus = 0x7C"

datatype SliderType =
    SliderType_streamMic | SliderType_streamChat | SliderType_streamGame
  | SliderType_streamAux | SliderType_mic | SliderType_sidetone

fun sliderTypeValue :: "SliderType \<Rightarrow> int" where
  "sliderTypeValue SliderType_streamMic = 0x00"
| "sliderTypeValue SliderType_streamChat = 0x01"
| "sliderTypeValue SliderType_streamGame = 0x02"
| "sliderTypeValue SliderType_streamAux = 0x03"
| "sliderTypeValue SliderType_mic = 0x04"
| "sliderTypeValue SliderType_sidetone = 0x05"

text \<open>models.py: the two frozen dataclasses.\<close>

record BatteryStatus =
  isCharging :: bool
  chargePercent :: int

record HeadsetStatus =
  isDocked :: bool
  isOn :: bool

section \<open>Frame codec (client.py, lines 35 to 67)\<close>

text \<open>
  \<open>_buildRequestFrame\<close>, up to the list it hands to \<open>bytes\<close>. \<open>payloadBytes\<close> is
  \<open>Optional[Sequence[int]]\<close>; \<open>if payloadBytes:\<close> is false for \<open>None\<close> and for an
  empty sequence. \<open>[0] * n\<close> is the empty list when \<open>n\<close> is not positive, which is
  what \<open>replicate (nat n)\<close> gives. \<open>bodyLength\<close> is 64 on the branch
  \<open>reportLength == 65\<close> and \<open>reportLength\<close> on the other.
\<close>

definition frameBytes :: "int \<Rightarrow> int list option \<Rightarrow> int list" where
  "frameBytes commandId payloadBytes =
     (let frameBytes = [0x02, commandId AND 0xFF, 0x00]
      in case payloadBytes of
           None \<Rightarrow> frameBytes
         | Some ps \<Rightarrow>
             if ps = [] then frameBytes
             else frameBytes[2 := int (length ps) AND 0xFF] @ map (\<lambda>value. value AND 0xFF) ps)"

definition paddedBody :: "int \<Rightarrow> int list option \<Rightarrow> int \<Rightarrow> int list" where
  "paddedBody commandId payloadBytes bodyLength =
     (let frameBytes = frameBytes commandId payloadBytes
      in frameBytes @ replicate (nat (bodyLength - int (length frameBytes))) 0)"

definition buildRequestFrame :: "int \<Rightarrow> int list option \<Rightarrow> int \<Rightarrow> bytes" where
  "buildRequestFrame commandId payloadBytes reportLength =
     (if reportLength = 65
      then toBytes [0x00] @ toBytes (paddedBody commandId payloadBytes 64)
      else toBytes (paddedBody commandId payloadBytes reportLength))"

text \<open>\<open>_normalizeResponseFrame\<close>: \<open>responseFrame[1:]\<close> is \<open>drop 1\<close>.\<close>

definition normalizeResponseFrame :: "bytes \<Rightarrow> bytes" where
  "normalizeResponseFrame responseFrame =
     (if responseFrame \<noteq> [] \<and> responseFrame ! 0 = 0x00
         \<and> length responseFrame > 1 \<and> responseFrame ! 1 = 0x02
      then drop 1 responseFrame
      else responseFrame)"

text \<open>\<open>_extractPayload\<close>: \<open>None\<close> is Python's \<open>None\<close>.\<close>

definition extractPayload :: "bytes \<Rightarrow> bytes option" where
  "extractPayload responseFrame =
     (if length responseFrame < 3 then None
      else
        let frameStartByte = responseFrame ! 0;
            statusCodeByte = responseFrame ! 1
        in if frameStartByte \<noteq> 0x02 \<or> statusCodeByte \<noteq> 0x02 then None
           else
             let payloadLength = uint (responseFrame ! 2);
                 payloadLength = min payloadLength (max 0 (int (length responseFrame) - 3))
             in Some (pySlice responseFrame 3 (3 + payloadLength)))"

section \<open>Exceptions and the HID capability\<close>

text \<open>
  Every exception the client raises itself is a \<open>RuntimeError\<close>; the message is kept
  as a constructor with the values the f-string interpolates (the command id, the raw
  payload), the second argument is \<open>__cause__\<close> (set by \<open>raise ... from\<close>).
  Exceptions of the \<open>hid\<close> module are an \<open>OSError\<close> (caught by \<open>except OSError\<close>)
  or some other \<open>Exception\<close>; \<open>ValueError\<close> and \<open>OverflowError\<close> are what
  \<open>time.sleep\<close> raises.
\<close>

datatype message =
    DeviceNotFound
  | NoValidResponse int
  | NoSaneBatteryValue
  | UnexpectedHeadsetStatus bytes
  | UnexpectedSlider bytes
  | UnexpectedEq bytes
  | UnexpectedBalance bytes
  | UnexpectedDefaultBalance bytes
  | UnexpectedAlertVolume bytes
  | UnexpectedMicEq bytes
  | UnexpectedNoiseGate bytes

datatype exn =
    OSError string
  | OtherException string
  | ValueError
  | OverflowError
  | RuntimeError message "exn option"

fun isOSError :: "exn \<Rightarrow> bool" where
  "isOSError (OSError _) = True"
| "isOSError _ = False"

text \<open>
  A Python \<open>float\<close> is a finite number, an infinity or NaN. \<open>time.sleep(secs)\<close>
  of the standard library either raises or returns after the delay: it raises
  \<open>ValueError\<close> for NaN and for a negative length, and \<open>OverflowError\<close> for a
  length beyond what its clock holds (64 bits of nanoseconds), the infinities
  included. Time itself is not part of the model, so a sleep that returns is no step
  of it; the sleep that can raise, the one on the configured delay at line 113, is a
  step. The three sleeps with a literal argument (0.03, 0.06 and 0.05 seconds, lines
  80, 118 and 140) always return (lemma \<open>time_sleep_literals\<close>).
\<close>

datatype pyfloat = Finite real | PosInf | NegInf | NaN

definition sleepMax :: real where
  "sleepMax = 2 ^ 63 / 10 ^ 9"

fun time_sleep :: "pyfloat \<Rightarrow> exn option" where
  "time_sleep NaN = Some ValueError"
| "time_sleep PosInf = Some OverflowError"
| "time_sleep NegInf = Some OverflowError"
| "time_sleep (Finite secs) =
     (if secs < - sleepMax \<or> sleepMax < secs then Some OverflowError
      else if secs < 0 then Some ValueError
      else None)"

text \<open>
  The \<open>hid\<close> module is not part of the repository: its calls are parameters. \<open>'w\<close> is
  the state of the outside world (the device, its open handle). A call that returns
  nothing useful yields \<open>None\<close> when it returns and \<open>Some e\<close> when it raises
  \<open>e\<close>; a read yields \<open>Inr\<close> of the bytes read or \<open>Inl\<close> of the exception.
  \<open>get_feature_report\<close> takes the report id and the length, \<open>read\<close> the length and
  \<open>timeout_ms\<close>.
\<close>

record deviceInfo =
  vendor_id :: int
  path :: bytes

record 'w hid =
  hid_enumerate :: "'w \<Rightarrow> deviceInfo list"
  open_path :: "bytes \<Rightarrow> 'w \<Rightarrow> exn option \<times> 'w"
  set_nonblocking :: "int \<Rightarrow> 'w \<Rightarrow> exn option \<times> 'w"
  send_feature_report :: "bytes \<Rightarrow> 'w \<Rightarrow> exn option \<times> 'w"
  get_feature_report :: "int \<Rightarrow> int \<Rightarrow> 'w \<Rightarrow> (exn + bytes) \<times> 'w"
  hid_write :: "bytes \<Rightarrow> 'w \<Rightarrow> exn option \<times> 'w"
  hid_read :: "int \<Rightarrow> int \<Rightarrow> 'w \<Rightarrow> (exn + bytes) \<times> 'w"
  hid_close :: "'w \<Rightarrow> exn option \<times> 'w"

section \<open>The client (client.py)\<close>

text \<open>
  The session state of \<open>AstroA50Client\<close>, and \<open>__init__\<close>; the defaults of its
  arguments are \<open>0x9886\<close>, \<open>(64, 65)\<close> and \<open>0.08\<close>.
\<close>

record client =
  vendorId :: int
  reportLengths :: "int list"
  commandDelaySeconds :: pyfloat
  lastGoodBatteryStatus :: "BatteryStatus option"

definition init :: "int \<Rightarrow> int list \<Rightarrow> pyfloat \<Rightarrow> client" where
  "init vendorId' reportLengths' commandDelaySeconds' =
     \<lparr>vendorId = vendorId', reportLengths = reportLengths',
      commandDelaySeconds = commandDelaySeconds', lastGoodBatteryStatus = None\<rparr>"

definition findDevicePath :: "'w hid \<Rightarrow> client \<Rightarrow> 'w \<Rightarrow> exn + bytes" where
  "findDevicePath hid self w =
     (let devices = filter (\<lambda>device. vendor_id device = vendorId self) (hid_enumerate hid w)
      in if devices = [] then Inl (RuntimeError DeviceNotFound None)
         else Inr (path (devices ! 0)))"

subsection \<open>Transport: \<open>_sendCommandOnce\<close>\<close>

text \<open>
  The first inner \<open>try\<close>: the feature-report exchange. \<open>Inr (Some r)\<close> is
  \<open>return r\<close>, \<open>Inr None\<close> falls through to the next statement, \<open>Inl e\<close> is an
  exception the \<open>except OSError\<close> clause does not catch.
\<close>

definition featureExchange ::
  "'w hid \<Rightarrow> bytes \<Rightarrow> int \<Rightarrow> 'w \<Rightarrow> (exn + bytes option) \<times> 'w" where
  "featureExchange hid requestFrame reportLength w =
     (case send_feature_report hid requestFrame w of
        (Some e, w1) \<Rightarrow> if isOSError e then (Inr None, w1) else (Inl e, w1)
      | (None, w1) \<Rightarrow>
          (case get_feature_report hid 0 reportLength w1 of
             (Inl e, w2) \<Rightarrow> if isOSError e then (Inr None, w2) else (Inl e, w2)
           | (Inr featureResponse, w2) \<Rightarrow>
               if featureResponse \<noteq> []
               then (Inr (Some (normalizeResponseFrame featureResponse)), w2)
               else (Inr None, w2)))"

text \<open>The second inner \<open>try\<close>: the interrupt write and read.\<close>

definition interruptExchange ::
  "'w hid \<Rightarrow> bytes \<Rightarrow> int \<Rightarrow> 'w \<Rightarrow> (exn + bytes option) \<times> 'w" where
  "interruptExchange hid requestFrame reportLength w =
     (case hid_write hid requestFrame w of
        (Some e, w1) \<Rightarrow> if isOSError e then (Inr None, w1) else (Inl e, w1)
      | (None, w1) \<Rightarrow>
          (case hid_read hid reportLength 250 w1 of
             (Inl e, w2) \<Rightarrow> if isOSError e then (Inr None, w2) else (Inl e, w2)
           | (Inr interruptResponse, w2) \<Rightarrow>
               if interruptResponse \<noteq> []
               then (Inr (Some (normalizeResponseFrame interruptResponse)), w2)
               else (Inr None, w2)))"

text \<open>
  The body of the outer \<open>try\<close> for one report length, and the \<open>finally\<close> clause
  around it: the handle is closed on every exit, and an exception of \<open>close\<close> is
  swallowed.
\<close>

definition tryReportLength ::
  "'w hid \<Rightarrow> bytes \<Rightarrow> int \<Rightarrow> int list option \<Rightarrow> int \<Rightarrow> 'w \<Rightarrow> (exn + bytes option) \<times> 'w" where
  "tryReportLength hid devicePath commandId payloadBytes reportLength w =
     (case open_path hid devicePath w of
        (Some e, w1) \<Rightarrow> (Inl e, w1)
      | (None, w1) \<Rightarrow>
          (case set_nonblocking hid 0 w1 of
             (Some e, w2) \<Rightarrow> (Inl e, w2)
           | (None, w2) \<Rightarrow>
               let requestFrame = buildRequestFrame commandId payloadBytes reportLength
               in case featureExchange hid requestFrame reportLength w2 of
                    (Inl e, w3) \<Rightarrow> (Inl e, w3)
                  | (Inr (Some r), w3) \<Rightarrow> (Inr (Some r), w3)
                  | (Inr None, w3) \<Rightarrow> interruptExchange hid requestFrame reportLength w3))"

definition withClose ::
  "'w hid \<Rightarrow> (exn + bytes option) \<times> 'w \<Rightarrow> (exn + bytes option) \<times> 'w" where
  "withClose hid r = (case r of (outcome, w) \<Rightarrow> (outcome, snd (hid_close hid w)))"

fun sendCommandOnceLoop ::
  "'w hid \<Rightarrow> bytes \<Rightarrow> int \<Rightarrow> int list option \<Rightarrow> int list \<Rightarrow> 'w \<Rightarrow> (exn + bytes option) \<times> 'w" where
  "sendCommandOnceLoop hid devicePath commandId payloadBytes [] w = (Inr None, w)"
| "sendCommandOnceLoop hid devicePath commandId payloadBytes (reportLength # rest) w =
     (case withClose hid (tryReportLength hid devicePath commandId payloadBytes reportLength w) of
        (Inl e, w') \<Rightarrow> (Inl e, w')
      | (Inr (Some r), w') \<Rightarrow> (Inr (Some r), w')
      | (Inr None, w') \<Rightarrow> sendCommandOnceLoop hid devicePath commandId payloadBytes rest w')"

definition sendCommandOnce ::
  "'w hid \<Rightarrow> client \<Rightarrow> bytes \<Rightarrow> int \<Rightarrow> int list option \<Rightarrow> 'w \<Rightarrow> (exn + bytes option) \<times> 'w" where
  "sendCommandOnce hid self devicePath commandId payloadBytes w =
     sendCommandOnceLoop hid devicePath commandId payloadBytes (reportLengths self) w"

subsection \<open>Retrying query engine: \<open>_query\<close>\<close>

text \<open>
  The \<open>for _ in range(int(retries))\<close> loop, with the attempts left as the counter and
  \<open>lastError\<close> threaded through; the case of no attempt left is the \<open>raise\<close> after the
  loop. \<open>except Exception as error\<close> catches whatever the body of the \<open>try\<close> raises:
  an exception of \<open>_sendCommandOnce\<close>, and one of
  \<open>time.sleep(self.commandDelaySeconds)\<close>, which stands between obtaining the payload
  and returning it.
\<close>

fun queryLoop ::
  "'w hid \<Rightarrow> client \<Rightarrow> bytes \<Rightarrow> int \<Rightarrow> int list option \<Rightarrow> nat \<Rightarrow> exn option \<Rightarrow> 'w
     \<Rightarrow> (exn + bytes) \<times> 'w" where
  "queryLoop hid self devicePath commandId payloadBytes 0 lastError w =
     (Inl (RuntimeError (NoValidResponse commandId) lastError), w)"
| "queryLoop hid self devicePath commandId payloadBytes (Suc n) lastError w =
     (case sendCommandOnce hid self devicePath commandId payloadBytes w of
        (Inl error, w') \<Rightarrow>
          queryLoop hid self devicePath commandId payloadBytes n (Some error) w'
      | (Inr None, w') \<Rightarrow>
          queryLoop hid self devicePath commandId payloadBytes n lastError w'
      | (Inr (Some responseFrame), w') \<Rightarrow>
          if responseFrame \<noteq> [] then
            (case extractPayload responseFrame of
               Some payloadFromDevice \<Rightarrow>
                 (case time_sleep (commandDelaySeconds self) of
                    None \<Rightarrow> (Inr payloadFromDevice, w')
                  | Some error \<Rightarrow>
                      queryLoop hid self devicePath commandId payloadBytes n (Some error) w')
             | None \<Rightarrow> queryLoop hid self devicePath commandId payloadBytes n lastError w')
          else queryLoop hid self devicePath commandId payloadBytes n lastError w')"

definition query ::
  "'w hid \<Rightarrow> client \<Rightarrow> int \<Rightarrow> int list option \<Rightarrow> int \<Rightarrow> 'w \<Rightarrow> (exn + bytes) \<times> 'w" where
  "query hid self commandId payloadBytes retries w =
     (case findDevicePath hid self w of
        Inl e \<Rightarrow> (Inl e, w)
      | Inr devicePath \<Rightarrow>
          queryLoop hid self devicePath commandId payloadBytes (nat retries) None w)"

subsection \<open>Public API\<close>

text \<open>Line 134: the \<open>BatteryStatus\<close> built from the status byte.\<close>

definition batteryStatusOfByte :: "byte \<Rightarrow> BatteryStatus" where
  "batteryStatusOfByte statusByte =
     \<lparr>isCharging = (statusByte AND 0x80 \<noteq> 0), chargePercent = uint (statusByte AND 0x7F)\<rparr>"

text \<open>
  \<open>getBatteryStatus\<close>: the loop over \<open>range(int(retries))\<close>, with the cycles left as
  the counter; the case of no cycle left is the code after the loop. \<open>_query\<close> is
  called with its default \<open>retries = 4\<close>, and an exception it raises is not caught
  here. The result carries the session state, whose cache the method may assign.
\<close>

fun getBatteryStatusLoop ::
  "'w hid \<Rightarrow> client \<Rightarrow> nat \<Rightarrow> 'w \<Rightarrow> (exn + BatteryStatus) \<times> client \<times> 'w" where
  "getBatteryStatusLoop hid self 0 w =
     (case lastGoodBatteryStatus self of
        Some cached \<Rightarrow> (Inr cached, self, w)
      | None \<Rightarrow> (Inl (RuntimeError NoSaneBatteryValue None), self, w))"
| "getBatteryStatusLoop hid self (Suc n) w =
     (case query hid self (commandValue Command_getBatteryStatus) None 4 w of
        (Inl e, w') \<Rightarrow> (Inl e, self, w')
      | (Inr payloadBytes, w') \<Rightarrow>
          if length payloadBytes \<ge> 1 then
            let statusByte = payloadBytes ! 0;
                batteryStatus = batteryStatusOfByte statusByte
            in if 0 \<le> chargePercent batteryStatus \<and> chargePercent batteryStatus \<le> 100
               then (Inr batteryStatus, self\<lparr>lastGoodBatteryStatus := Some batteryStatus\<rparr>, w')
               else getBatteryStatusLoop hid self n w'
          else getBatteryStatusLoop hid self n w')"

definition getBatteryStatus ::
  "'w hid \<Rightarrow> client \<Rightarrow> int \<Rightarrow> 'w \<Rightarrow> (exn + BatteryStatus) \<times> client \<times> 'w" where
  "getBatteryStatus hid self retries w = getBatteryStatusLoop hid self (nat retries) w"

definition getHeadsetStatus ::
  "'w hid \<Rightarrow> client \<Rightarrow> 'w \<Rightarrow> (exn + HeadsetStatus) \<times> 'w" where
  "getHeadsetStatus hid self w =
     (case query hid self (commandValue Command_getHeadsetStatus) None 4 w of
        (Inl e, w') \<Rightarrow> (Inl e, w')
      | (Inr payloadBytes, w') \<Rightarrow>
          if length payloadBytes < 1
          then (Inl (RuntimeError (UnexpectedHeadsetStatus payloadBytes) None), w')
          else
            let statusByte = payloadBytes ! 0
            in (Inr \<lparr>isDocked = (statusByte AND 0x01 \<noteq> 0), isOn = (statusByte AND 0x02 \<noteq> 0)\<rparr>, w'))"

text \<open>
  \<open>getSliderValue\<close>: \<open>sliderType\<close> is an \<open>int\<close> or a \<open>SliderType\<close>, read through
  \<open>int(sliderType)\<close>; \<open>int(saved)\<close> is \<open>of_bool saved\<close>.
\<close>

definition getSliderValue ::
  "'w hid \<Rightarrow> client \<Rightarrow> int \<Rightarrow> bool \<Rightarrow> 'w \<Rightarrow> (exn + int) \<times> 'w" where
  "getSliderValue hid self sliderType saved w =
     (let sliderId = sliderType AND 0xFF
      in case query hid self (commandValue Command_getSliderValue) (Some [sliderId]) 4 w of
           (Inl e, w') \<Rightarrow> (Inl e, w')
         | (Inr payloadBytes, w') \<Rightarrow>
             if length payloadBytes < 4
                \<or> uint (payloadBytes ! 0) \<noteq> commandValue Command_getSliderValue
                \<or> uint (payloadBytes ! 1) \<noteq> sliderId
             then (Inl (RuntimeError (UnexpectedSlider payloadBytes) None), w')
             else
               let valueIndex = 2 + of_bool saved
               in (Inr (uint (payloadBytes ! nat valueIndex)), w'))"

text \<open>
  The five getters that return byte 0 of a payload; \<open>not payloadBytes\<close> holds of
  the empty payload.
\<close>

definition getActiveEqPreset :: "'w hid \<Rightarrow> client \<Rightarrow> 'w \<Rightarrow> (exn + int) \<times> 'w" where
  "getActiveEqPreset hid self w =
     (case query hid self (commandValue Command_getActiveEqPreset) None 4 w of
        (Inl e, w') \<Rightarrow> (Inl e, w')
      | (Inr payloadBytes, w') \<Rightarrow>
          if payloadBytes = [] then (Inl (RuntimeError (UnexpectedEq payloadBytes) None), w')
          else (Inr (uint (payloadBytes ! 0)), w'))"

definition getBalance :: "'w hid \<Rightarrow> client \<Rightarrow> 'w \<Rightarrow> (exn + int) \<times> 'w" where
  "getBalance hid self w =
     (case query hid self (commandValue Command_getBalance) None 4 w of
        (Inl e, w') \<Rightarrow> (Inl e, w')
      | (Inr payloadBytes, w') \<Rightarrow>
          if payloadBytes = [] then (Inl (RuntimeError (UnexpectedBalance payloadBytes) None), w')
          else (Inr (uint (payloadBytes ! 0)), w'))"

definition getDefaultBalance :: "'w hid \<Rightarrow> client \<Rightarrow> bool \<Rightarrow> 'w \<Rightarrow> (exn + int) \<times> 'w" where
  "getDefaultBalance hid self saved w =
     (case query hid self (commandValue Command_getDefaultBalance) (Some [of_bool saved]) 4 w of
        (Inl e, w') \<Rightarrow> (Inl e, w')
      | (Inr payloadBytes, w') \<Rightarrow>
          if payloadBytes = [] then (Inl (RuntimeError (UnexpectedDefaultBalance payloadBytes) None), w')
          else (Inr (uint (payloadBytes ! 0)), w'))"

definition getAlertVolume :: "'w hid \<Rightarrow> client \<Rightarrow> bool \<Rightarrow> 'w \<Rightarrow> (exn + int) \<times> 'w" where
  "getAlertVolume hid self saved w =
     (case query hid self (commandValue Command_getAlertVolume) (Some [of_bool saved]) 4 w of
        (Inl e, w') \<Rightarrow> (Inl e, w')
      | (Inr payloadBytes, w') \<Rightarrow>
          if payloadBytes = [] then (Inl (RuntimeError (UnexpectedAlertVolume payloadBytes) None), w')
          else (Inr (uint (payloadBytes ! 0)), w'))"

definition getMicEq :: "'w hid \<Rightarrow> client \<Rightarrow> bool \<Rightarrow> 'w \<Rightarrow> (exn + int) \<times> 'w" where
  "getMicEq hid self saved w =
     (case query hid self (commandValue Command_getMicEq) (Some [of_bool saved]) 4 w of
        (Inl e, w') \<Rightarrow> (Inl e, w')
      | (Inr payloadBytes, w') \<Rightarrow>
          if payloadBytes = [] then (Inl (RuntimeError (UnexpectedMicEq payloadBytes) None), w')
          else (Inr (uint (payloadBytes ! 0)), w'))"

definition getNoiseGateMode :: "'w hid \<Rightarrow> client \<Rightarrow> bool \<Rightarrow> 'w \<Rightarrow> (exn + int) \<times> 'w" where
  "getNoiseGateMode hid self saved w =
     (case query hid self (commandValue Command_getNoiseGateMode) None 4 w of
        (Inl e, w') \<Rightarrow> (Inl e, w')
      | (Inr payloadBytes, w') \<Rightarrow>
          if length payloadBytes < 3 \<or> uint (payloadBytes ! 0) \<noteq> commandValue Command_getNoiseGateMode
          then (Inl (RuntimeError (UnexpectedNoiseGate payloadBytes) None), w')
          else (Inr (uint (payloadBytes ! nat (1 + of_bool saved))), w'))"

text \<open>
  \<open>getSnapshot\<close>: the dictionary it returns has at most the four keys below; an absent
  key is \<open>None\<close>. \<open>time\<close> stands for \<open>time.time()\<close>, whose float the model does
  not look into. The first sub-query that raises ends the call.
\<close>

record 't snapshot =
  timestampEntry :: "'t option"
  batteryEntry :: "BatteryStatus option"
  headsetEntry :: "HeadsetStatus option"
  sidetoneEntry :: "(int \<times> int) option"

definition snapshotBattery ::
  "'w hid \<Rightarrow> bool \<Rightarrow> 't snapshot \<Rightarrow> client \<Rightarrow> 'w \<Rightarrow> (exn + 't snapshot) \<times> client \<times> 'w" where
  "snapshotBattery hid battery snapshot self w =
     (if battery then
        (case getBatteryStatus hid self 6 w of
           (Inl e, self', w') \<Rightarrow> (Inl e, self', w')
         | (Inr batteryStatus, self', w') \<Rightarrow>
             (Inr (snapshot\<lparr>batteryEntry := Some batteryStatus\<rparr>), self', w'))
      else (Inr snapshot, self, w))"

definition snapshotHeadset ::
  "'w hid \<Rightarrow> bool \<Rightarrow> 't snapshot \<Rightarrow> client \<Rightarrow> 'w \<Rightarrow> (exn + 't snapshot) \<times> 'w" where
  "snapshotHeadset hid headset snapshot self w =
     (if headset then
        (case getHeadsetStatus hid self w of
           (Inl e, w') \<Rightarrow> (Inl e, w')
         | (Inr headsetStatus, w') \<Rightarrow> (Inr (snapshot\<lparr>headsetEntry := Some headsetStatus\<rparr>), w'))
      else (Inr snapshot, w))"

definition snapshotSidetone ::
  "'w hid \<Rightarrow> bool \<Rightarrow> 't snapshot \<Rightarrow> client \<Rightarrow> 'w \<Rightarrow> (exn + 't snapshot) \<times> 'w" where
  "snapshotSidetone hid sidetone snapshot self w =
     (if sidetone then
        (case getSliderValue hid self (sliderTypeValue SliderType_sidetone) False w of
           (Inl e, w') \<Rightarrow> (Inl e, w')
         | (Inr sidetoneActive, w') \<Rightarrow>
             (case getSliderValue hid self (sliderTypeValue SliderType_sidetone) True w' of
                (Inl e, w'') \<Rightarrow> (Inl e, w'')
              | (Inr sidetoneSaved, w'') \<Rightarrow>
                  (Inr (snapshot\<lparr>sidetoneEntry := Some (sidetoneActive, sidetoneSaved)\<rparr>), w'')))
      else (Inr snapshot, w))"

definition getSnapshot ::
  "'w hid \<Rightarrow> ('w \<Rightarrow> 't) \<Rightarrow> client \<Rightarrow> bool \<Rightarrow> bool \<Rightarrow> bool \<Rightarrow> bool \<Rightarrow> 'w
     \<Rightarrow> (exn + 't snapshot) \<times> client \<times> 'w" where
  "getSnapshot hid time self battery headset sidetone includeTimestamp w =
     (let snapshot = \<lparr>timestampEntry = (if includeTimestamp then Some (time w) else None),
                       batteryEntry = None, headsetEntry = None, sidetoneEntry = None\<rparr>
      in case snapshotBattery hid battery snapshot self w of
           (Inl e, self1, w1) \<Rightarrow> (Inl e, self1, w1)
         | (Inr snapshot1, self1, w1) \<Rightarrow>
             (case snapshotHeadset hid headset snapshot1 self1 w1 of
                (Inl e, w2) \<Rightarrow> (Inl e, self1, w2)
              | (Inr snapshot2, w2) \<Rightarrow>
                  (case snapshotSidetone hid sidetone snapshot2 self1 w2 of
                     (Inl e, w3) \<Rightarrow> (Inl e, self1, w3)
                   | (Inr snapshot3, w3) \<Rightarrow> (Inr snapshot3, self1, w3))))"

section \<open>Sessions: any sequence of calls of the public API\<close>

text \<open>
  A caller's use of one client is a sequence of calls. \<open>perform\<close> runs one call and
  keeps the session state and the world it leaves; results are dropped, a raised
  exception leaves the caller free to go on with the same client.
\<close>

datatype operation =
    CallGetBatteryStatus int
  | CallGetHeadsetStatus
  | CallGetSliderValue int bool
  | CallGetActiveEqPreset
  | CallGetBalance
  | CallGetDefaultBalance bool
  | CallGetAlertVolume bool
  | CallGetMicEq bool
  | CallGetNoiseGateMode bool
  | CallGetSnapshot bool bool bool bool

fun perform :: "'w hid \<Rightarrow> ('w \<Rightarrow> 't) \<Rightarrow> operation \<Rightarrow> client \<times> 'w \<Rightarrow> client \<times> 'w" where
  "perform hid time (CallGetBatteryStatus retries) (self, w) = snd (getBatteryStatus hid self retries w)"
| "perform hid time CallGetHeadsetStatus (self, w) = (self, snd (getHeadsetStatus hid self w))"
| "perform hid time (CallGetSliderValue sliderType saved) (self, w) =
     (self, snd (getSliderValue hid self sliderType saved w))"
| "perform hid time CallGetActiveEqPreset (self, w) = (self, snd (getActiveEqPreset hid self w))"
| "perform hid time CallGetBalance (self, w) = (self, snd (getBalance hid self w))"
| "perform hid time (CallGetDefaultBalance saved) (self, w) =
     (self, snd (getDefaultBalance hid self saved w))"
| "perform hid time (CallGetAlertVolume saved) (self, w) =
     (self, snd (getAlertVolume hid self saved w))"
| "perform hid time (CallGetMicEq saved) (self, w) = (self, snd (getMicEq hid self saved w))"
| "perform hid time (CallGetNoiseGateMode saved) (self, w) =
     (self, snd (getNoiseGateMode hid self saved w))"
| "perform hid time (CallGetSnapshot battery headset sidetone includeTimestamp) (self, w) =
     snd (getSnapshot hid time self battery headset sidetone includeTimestamp w)"

fun session :: "'w hid \<Rightarrow> ('w \<Rightarrow> 't) \<Rightarrow> operation list \<Rightarrow> client \<times> 'w \<Rightarrow> client \<times> 'w" where
  "session hid time [] s = s"
| "session hid time (operation # rest) s = session hid time rest (perform hid time operation s)"

text \<open>The invariant of \<open>BatteryStatus\<close>, and of the cache of a session.\<close>

definition saneBattery :: "BatteryStatus \<Rightarrow> bool" where
  "saneBattery b = (0 \<le> chargePercent b \<and> chargePercent b \<le> 100)"

definition cacheSane :: "client \<Rightarrow> bool" where
  "cacheSane self = (case lastGoodBatteryStatus self of None \<Rightarrow> True | Some b \<Rightarrow> saneBattery b)"

section \<open>Attempts of a query, and cycles of a battery read\<close>

text \<open>
  The notions the statements about the two retry loops are written in. An attempt is
  one call of \<open>_sendCommandOnce\<close>; \<open>worldAfter k\<close> is the world \<open>k\<close> attempts later,
  \<open>attemptOutcome k\<close> what attempt \<open>k\<close> (counted from 0) returns or raises, and
  \<open>attemptPayload\<close> the payload \<open>_query\<close> reads off an outcome: a non-empty response
  frame that \<open>_extractPayload\<close> accepts.
\<close>

fun worldAfter ::
  "'w hid \<Rightarrow> client \<Rightarrow> bytes \<Rightarrow> int \<Rightarrow> int list option \<Rightarrow> nat \<Rightarrow> 'w \<Rightarrow> 'w" where
  "worldAfter hid self devicePath commandId payloadBytes 0 w = w"
| "worldAfter hid self devicePath commandId payloadBytes (Suc k) w =
     worldAfter hid self devicePath commandId payloadBytes k
       (snd (sendCommandOnce hid self devicePath commandId payloadBytes w))"

definition attemptOutcome ::
  "'w hid \<Rightarrow> client \<Rightarrow> bytes \<Rightarrow> int \<Rightarrow> int list option \<Rightarrow> nat \<Rightarrow> 'w \<Rightarrow> exn + bytes option" where
  "attemptOutcome hid self devicePath commandId payloadBytes k w =
     fst (sendCommandOnce hid self devicePath commandId payloadBytes
            (worldAfter hid self devicePath commandId payloadBytes k w))"

definition attemptPayload :: "exn + bytes option \<Rightarrow> bytes option" where
  "attemptPayload outcome =
     (case outcome of
        Inr (Some responseFrame) \<Rightarrow>
          if responseFrame \<noteq> [] then extractPayload responseFrame else None
      | _ \<Rightarrow> None)"

text \<open>
  What an attempt with a given outcome makes of the \<open>try\<close> of \<open>_query\<close>:
  \<open>attemptReturns\<close> is the payload the query returns on it (the payload read off the
  outcome, when the sleep on the configured delay returns), \<open>attemptError\<close> the
  exception it records as last error (the one \<open>_sendCommandOnce\<close> raised, or the one
  the sleep raises once a payload is there). \<open>lastErrorAfter k\<close> is the exception
  recorded by the last of the first \<open>k\<close> attempts that recorded one, \<open>None\<close> when
  none of them did.
\<close>

definition attemptReturns :: "client \<Rightarrow> exn + bytes option \<Rightarrow> bytes option" where
  "attemptReturns self outcome =
     (case attemptPayload outcome of
        Some payload \<Rightarrow>
          (case time_sleep (commandDelaySeconds self) of None \<Rightarrow> Some payload | Some error \<Rightarrow> None)
      | None \<Rightarrow> None)"

definition attemptError :: "client \<Rightarrow> exn + bytes option \<Rightarrow> exn option" where
  "attemptError self outcome =
     (case outcome of
        Inl error \<Rightarrow> Some error
      | Inr r \<Rightarrow>
          (case attemptPayload outcome of
             Some payload \<Rightarrow> time_sleep (commandDelaySeconds self)
           | None \<Rightarrow> None))"

fun lastErrorAfter ::
  "'w hid \<Rightarrow> client \<Rightarrow> bytes \<Rightarrow> int \<Rightarrow> int list option \<Rightarrow> nat \<Rightarrow> 'w \<Rightarrow> exn option" where
  "lastErrorAfter hid self devicePath commandId payloadBytes 0 w = None"
| "lastErrorAfter hid self devicePath commandId payloadBytes (Suc k) w =
     (case attemptError self (attemptOutcome hid self devicePath commandId payloadBytes k w) of
        Some e \<Rightarrow> Some e
      | None \<Rightarrow> lastErrorAfter hid self devicePath commandId payloadBytes k w)"

text \<open>
  A cycle of \<open>getBatteryStatus\<close> is one call of \<open>_query\<close> for the battery command;
  \<open>cycleWorld k\<close> is the world \<open>k\<close> cycles later and \<open>cycleResult k\<close> what cycle \<open>k\<close>
  gets from \<open>_query\<close>. A payload is accepted when it has a status byte whose decoded
  percentage passes the check of line 136.
\<close>

fun cycleWorld :: "'w hid \<Rightarrow> client \<Rightarrow> nat \<Rightarrow> 'w \<Rightarrow> 'w" where
  "cycleWorld hid self 0 w = w"
| "cycleWorld hid self (Suc k) w =
     cycleWorld hid self k (snd (query hid self (commandValue Command_getBatteryStatus) None 4 w))"

definition cycleResult :: "'w hid \<Rightarrow> client \<Rightarrow> nat \<Rightarrow> 'w \<Rightarrow> exn + bytes" where
  "cycleResult hid self k w =
     fst (query hid self (commandValue Command_getBatteryStatus) None 4 (cycleWorld hid self k w))"

definition accepted :: "bytes \<Rightarrow> bool" where
  "accepted payloadBytes = (payloadBytes \<noteq> [] \<and> saneBattery (batteryStatusOfByte (payloadBytes ! 0)))"

section \<open>A scripted device\<close>

text \<open>
  A device to run the client on: it has one \<open>hid\<close> interface of vendor \<open>0x9886\<close>, and
  the world is the list of what the next calls of \<open>get_feature_report\<close> do, in order
  (\<open>Inr\<close> the report read, \<open>Inl\<close> the exception raised); past the end of the list
  nothing is read. The interrupt channel never reads anything, no other call fails.
\<close>

definition scriptedHid :: "(exn + bytes) list hid" where
  "scriptedHid =
     \<lparr>hid_enumerate = (\<lambda>w. [\<lparr>vendor_id = 0x9886, path = [0x41]\<rparr>]),
      open_path = (\<lambda>devicePath w. (None, w)),
      set_nonblocking = (\<lambda>flag w. (None, w)),
      send_feature_report = (\<lambda>frame w. (None, w)),
      get_feature_report = (\<lambda>reportId reportLength w.
        case w of [] \<Rightarrow> (Inr [], []) | reply # rest \<Rightarrow> (reply, rest)),
      hid_write = (\<lambda>frame w. (None, w)),
      hid_read = (\<lambda>reportLength timeout w. (Inr [], w)),
      hid_close = (\<lambda>w. (None, w))\<rparr>"

section \<open>Recording what is sent\<close>

text \<open>
  Any device with a log in front of it: \<open>recording hid\<close> behaves as \<open>hid\<close> does
  and appends to the log every frame handed to \<open>send_feature_report\<close> or to
  \<open>write\<close>, in the order of the calls. \<open>sentOnly frames s s'\<close> says that from \<open>s\<close>
  to \<open>s'\<close> the log has only grown, and only by frames among \<open>frames\<close>.
\<close>

definition recording :: "'w hid \<Rightarrow> (bytes list \<times> 'w) hid" where
  "recording hid =
     \<lparr>hid_enumerate = (\<lambda>s. hid_enumerate hid (snd s)),
      open_path = (\<lambda>devicePath s.
        case open_path hid devicePath (snd s) of (r, w') \<Rightarrow> (r, (fst s, w'))),
      set_nonblocking = (\<lambda>flag s.
        case set_nonblocking hid flag (snd s) of (r, w') \<Rightarrow> (r, (fst s, w'))),
      send_feature_report = (\<lambda>frame s.
        case send_feature_report hid frame (snd s) of (r, w') \<Rightarrow> (r, (fst s @ [frame], w'))),
      get_feature_report = (\<lambda>reportId reportLength s.
        case get_feature_report hid reportId reportLength (snd s) of
          (r, w') \<Rightarrow> (r, (fst s, w'))),
      hid_write = (\<lambda>frame s.
        case hid_write hid frame (snd s) of (r, w') \<Rightarrow> (r, (fst s @ [frame], w'))),
      hid_read = (\<lambda>reportLength timeout s.
        case hid_read hid reportLength timeout (snd s) of (r, w') \<Rightarrow> (r, (fst s, w'))),
      hid_close = (\<lambda>s. case hid_close hid (snd s) of (r, w') \<Rightarrow> (r, (fst s, w')))\<rparr>"

definition sentOnly :: "bytes set \<Rightarrow> bytes list \<times> 'w \<Rightarrow> bytes list \<times> 'w \<Rightarrow> bool" where
  "sentOnly frames s s' =
     (take (length (fst s)) (fst s') = fst s
      \<and> set (drop (length (fst s)) (fst s')) \<subseteq> frames)"

section \<open>Notions for the frame layout\<close>

text \<open>
  The payload a request carries (none for \<open>None\<close>), the length of the body that
  \<open>_buildRequestFrame\<close> pads to, and the report-id byte it puts in front of the body
  when the report length is 65.
\<close>

definition payloadList :: "int list option \<Rightarrow> int list" where
  "payloadList payloadBytes = (case payloadBytes of None \<Rightarrow> [] | Some ps \<Rightarrow> ps)"

definition bodyLength :: "int \<Rightarrow> int" where
  "bodyLength reportLength = (if reportLength = 65 then 64 else reportLength)"

definition reportIdPrefix :: "int \<Rightarrow> bytes" where
  "reportIdPrefix reportLength = (if reportLength = 65 then [0x00] else [])"

section \<open>Lemmas\<close>

lemma pySlice_nonneg:
  "0 \<le> i \<Longrightarrow> 0 \<le> j \<Longrightarrow>
   pySlice xs i j =
     take (min (nat j) (length xs) - min (nat i) (length xs)) (drop (min (nat i) (length xs)) xs)"
  by (simp add: pySlice_def sliceIndex_def Let_def)

lemma and_255_mod: "(x::int) AND 0xFF = x mod 256"
  using take_bit_eq_mod[of 8 x] take_bit_eq_mask[of 8 x]
  by (simp add: mask_eq_exp_minus_1)

lemma uint_word_of_int_8: "uint (word_of_int x :: byte) = x mod 256"
  by (simp add: uint_word_of_int take_bit_eq_mod)

lemma frameBytes_length:
  "length (frameBytes commandId payloadBytes) =
     3 + length (case payloadBytes of None \<Rightarrow> [] | Some ps \<Rightarrow> ps)"
  by (simp add: frameBytes_def Let_def split: option.splits)

lemma max_length_minus_3: "3 \<le> (L::nat) \<Longrightarrow> max 0 (int L - 3) = int (L - 3)"
  by (simp add: of_nat_diff max_def)

lemma clamp_nat:
  assumes L: "3 \<le> L"
  shows "nat (min (uint (b::byte)) (max 0 (int L - 3))) = min (unat b) (L - 3)"
proof -
  have "min (uint b) (int (L - 3)) = int (min (unat b) (L - 3))"
    by (simp only: of_nat_min uint_nat)
  then show ?thesis
    unfolding max_length_minus_3[OF L] by (simp only: nat_int)
qed

lemma extractPayload_Some:
  assumes "3 \<le> length frame" "frame ! 0 = 0x02" "frame ! 1 = 0x02"
  shows "extractPayload frame =
           Some (take (min (unat (frame ! 2)) (length frame - 3)) (drop 3 frame))"
proof -
  let ?n = "min (uint (frame ! 2)) (max 0 (int (length frame) - 3))"
  have n0: "0 \<le> ?n" by simp
  have "pySlice frame 3 (3 + ?n) = take (min (nat (3 + ?n)) (length frame) - 3) (drop 3 frame)"
    using assms(1) n0 by (simp add: pySlice_nonneg del: min_less_iff_conj)
  moreover have "nat (3 + ?n) = 3 + nat ?n"
    using n0 by (simp add: nat_add_distrib)
  moreover have "nat ?n = min (unat (frame ! 2)) (length frame - 3)"
    using assms(1) by (rule clamp_nat)
  ultimately have "pySlice frame 3 (3 + ?n) =
      take (min (unat (frame ! 2)) (length frame - 3)) (drop 3 frame)"
    using assms(1) by (simp add: min_def)
  then show ?thesis
    using assms by (simp add: extractPayload_def Let_def)
qed

lemma extractPayload_None_iff:
  "extractPayload frame = None \<longleftrightarrow>
     (length frame < 3 \<or> frame ! 0 \<noteq> 0x02 \<or> frame ! 1 \<noteq> 0x02)"
  by (simp add: extractPayload_def Let_def)

lemma word_of_int_and_255: "(word_of_int (x AND 0xFF) :: byte) = word_of_int x"
proof -
  have "uint (word_of_int (x AND 0xFF) :: byte) = uint (word_of_int x :: byte)"
    by (simp add: uint_word_of_int_8 and_255_mod)
  then show ?thesis by (simp only: word_uint_eq_iff)
qed

lemma uint_word_of_nat_8: "uint (word_of_nat k :: byte) = int k mod 256"
  by (simp add: unsigned_of_nat take_bit_eq_mod zmod_int)

lemma frameBytes_eq:
  "frameBytes commandId payloadBytes =
     [0x02, commandId AND 0xFF, int (length (payloadList payloadBytes)) AND 0xFF]
       @ map (\<lambda>value. value AND 0xFF) (payloadList payloadBytes)"
  by (simp add: frameBytes_def payloadList_def Let_def split: option.splits)

lemma toBytes_append: "toBytes (xs @ ys) = toBytes xs @ toBytes ys"
  by (simp add: toBytes_def)

lemma toBytes_replicate_0: "toBytes (replicate k 0) = replicate k 0"
  by (simp add: toBytes_def)

lemma paddedBody_bytes:
  "toBytes (paddedBody commandId payloadBytes n) =
     [0x02, word_of_int commandId, word_of_nat (length (payloadList payloadBytes))]
       @ map word_of_int (payloadList payloadBytes)
       @ replicate (nat (n - (3 + int (length (payloadList payloadBytes))))) 0"
proof -
  have len: "length (frameBytes commandId payloadBytes) = 3 + length (payloadList payloadBytes)"
    by (simp add: frameBytes_eq)
  have "toBytes (frameBytes commandId payloadBytes) =
      [0x02, word_of_int commandId, word_of_nat (length (payloadList payloadBytes))]
       @ map word_of_int (payloadList payloadBytes)"
    by (simp add: frameBytes_eq toBytes_def word_of_int_and_255 del: and_255_mod)
  then show ?thesis
    unfolding paddedBody_def Let_def toBytes_append toBytes_replicate_0 len
    by (simp add: algebra_simps)
qed

lemma buildRequestFrame_layout:
  "buildRequestFrame commandId payloadBytes reportLength =
     reportIdPrefix reportLength
       @ [0x02, word_of_int commandId, word_of_nat (length (payloadList payloadBytes))]
       @ map word_of_int (payloadList payloadBytes)
       @ replicate (nat (bodyLength reportLength - (3 + int (length (payloadList payloadBytes))))) 0"
proof -
  have "toBytes [0x00] = [0x00]" by (simp add: toBytes_def)
  then show ?thesis
    by (simp add: buildRequestFrame_def paddedBody_bytes reportIdPrefix_def bodyLength_def)
qed

lemma normalize_body:
  "normalizeResponseFrame (0x02 # rest) = 0x02 # rest"
  by (simp add: normalizeResponseFrame_def)

lemma normalize_prefixed:
  "normalizeResponseFrame (0x00 # 0x02 # rest) = 0x02 # rest"
  by (simp add: normalizeResponseFrame_def)

lemma extract_wellformed:
  assumes "unat n = length payload"
  shows "extractPayload ([0x02, 0x02, n] @ payload @ padding) = Some payload"
  using assms by (simp add: extractPayload_Some)

lemma worldAfter_Suc_right:
  "worldAfter hid self dp c p (Suc k) w =
     snd (sendCommandOnce hid self dp c p (worldAfter hid self dp c p k w))"
  by (induction k arbitrary: w) simp_all

lemma attemptOutcome_0:
  "attemptOutcome hid self dp c p 0 w = fst (sendCommandOnce hid self dp c p w)"
  by (simp add: attemptOutcome_def)

lemma attemptOutcome_Suc:
  "attemptOutcome hid self dp c p (Suc k) w =
     attemptOutcome hid self dp c p k (snd (sendCommandOnce hid self dp c p w))"
  by (simp add: attemptOutcome_def)

lemma time_sleep_literals:
  "time_sleep (Finite 0.03) = None"
  "time_sleep (Finite 0.06) = None"
  "time_sleep (Finite 0.05) = None"
  "time_sleep (Finite 0.08) = None"
  by (simp_all add: sleepMax_def)

lemma attemptReturns_accepted:
  "time_sleep (commandDelaySeconds self) = None \<Longrightarrow>
   attemptReturns self outcome = attemptPayload outcome"
  by (simp add: attemptReturns_def split: option.splits)

lemma attemptReturns_refused:
  "time_sleep (commandDelaySeconds self) \<noteq> None \<Longrightarrow> attemptReturns self outcome = None"
  by (auto simp add: attemptReturns_def split: option.splits)

lemma queryLoop_step:
  "queryLoop hid self dp c p (Suc n) lastError w =
     (case attemptReturns self (fst (sendCommandOnce hid self dp c p w)) of
        Some payload \<Rightarrow> (Inr payload, snd (sendCommandOnce hid self dp c p w))
      | None \<Rightarrow>
          queryLoop hid self dp c p n
            (case attemptError self (fst (sendCommandOnce hid self dp c p w)) of
               Some e \<Rightarrow> Some e | None \<Rightarrow> lastError)
            (snd (sendCommandOnce hid self dp c p w)))"
  by (cases "sendCommandOnce hid self dp c p w")
     (auto simp add: attemptReturns_def attemptError_def attemptPayload_def
           split: sum.splits option.splits)

lemma lastErrorAfter_shift:
  "lastErrorAfter hid self dp c p (Suc n) w =
     (case lastErrorAfter hid self dp c p n (snd (sendCommandOnce hid self dp c p w)) of
        Some e \<Rightarrow> Some e
      | None \<Rightarrow> attemptError self (fst (sendCommandOnce hid self dp c p w)))"
proof (induction n)
  case 0
  show ?case by (simp add: attemptOutcome_0 split: option.splits)
next
  case (Suc n)
  show ?case
    apply (subst lastErrorAfter.simps(2))
    apply (subst Suc.IH)
    apply (simp add: attemptOutcome_Suc split: option.splits)
    done
qed

lemma queryLoop_success:
  "k < n \<Longrightarrow>
   (\<forall>i<k. attemptReturns self (attemptOutcome hid self dp c p i w) = None) \<Longrightarrow>
   attemptReturns self (attemptOutcome hid self dp c p k w) = Some payload \<Longrightarrow>
   queryLoop hid self dp c p n lastError w = (Inr payload, worldAfter hid self dp c p (Suc k) w)"
proof (induction n arbitrary: k lastError w)
  case 0
  then show ?case by simp
next
  case (Suc n)
  show ?case
  proof (cases k)
    case 0
    with Suc.prems(3) show ?thesis
      by (simp add: queryLoop_step attemptOutcome_0 del: queryLoop.simps)
  next
    case (Suc k')
    let ?w' = "snd (sendCommandOnce hid self dp c p w)"
    from Suc.prems(2) Suc
    have first: "attemptReturns self (fst (sendCommandOnce hid self dp c p w)) = None"
      by (auto simp add: attemptOutcome_0 dest: spec[of _ 0])
    have rest: "\<forall>i<k'. attemptReturns self (attemptOutcome hid self dp c p i ?w') = None"
      using Suc.prems(2) Suc by (auto simp add: attemptOutcome_Suc simp flip: attemptOutcome_Suc)
    have hit: "attemptReturns self (attemptOutcome hid self dp c p k' ?w') = Some payload"
      using Suc.prems(3) Suc by (simp add: attemptOutcome_Suc)
    have "k' < n" using Suc.prems(1) Suc by simp
    from Suc.IH[OF this rest hit] first Suc show ?thesis
      by (simp add: queryLoop_step del: queryLoop.simps)
  qed
qed

lemma queryLoop_exhausted:
  "(\<forall>i<n. attemptReturns self (attemptOutcome hid self dp c p i w) = None) \<Longrightarrow>
   queryLoop hid self dp c p n lastError w =
     (Inl (RuntimeError (NoValidResponse c)
        (case lastErrorAfter hid self dp c p n w of Some e \<Rightarrow> Some e | None \<Rightarrow> lastError)),
      worldAfter hid self dp c p n w)"
proof (induction n arbitrary: lastError w)
  case 0
  then show ?case by simp
next
  case (Suc n)
  let ?w' = "snd (sendCommandOnce hid self dp c p w)"
  from Suc.prems
  have first: "attemptReturns self (fst (sendCommandOnce hid self dp c p w)) = None"
    by (auto simp add: attemptOutcome_0 dest: spec[of _ 0])
  have rest: "\<forall>i<n. attemptReturns self (attemptOutcome hid self dp c p i ?w') = None"
    using Suc.prems by (auto simp flip: attemptOutcome_Suc)
  show ?case
    apply (subst queryLoop_step)
    apply (subst lastErrorAfter_shift)
    apply (simp add: first Suc.IH[OF rest] split: option.splits
             del: queryLoop.simps lastErrorAfter.simps)
    done
qed

lemma queryLoop_world:
  "\<exists>m\<le>n. snd (queryLoop hid self dp c p n lastError w) = worldAfter hid self dp c p m w"
proof (induction n arbitrary: lastError w)
  case 0
  show ?case by simp
next
  case (Suc n)
  let ?w' = "snd (sendCommandOnce hid self dp c p w)"
  show ?case
  proof (cases "attemptReturns self (fst (sendCommandOnce hid self dp c p w))")
    case (Some payload)
    then have "snd (queryLoop hid self dp c p (Suc n) lastError w) =
        worldAfter hid self dp c p (Suc 0) w"
      by (simp add: queryLoop_step del: queryLoop.simps)
    then show ?thesis by (intro exI[of _ "Suc 0"]) simp
  next
    case None
    let ?le = "case attemptError self (fst (sendCommandOnce hid self dp c p w)) of
                 Some e \<Rightarrow> Some e | None \<Rightarrow> lastError"
    from Suc.IH[of ?le ?w'] obtain m where m: "m \<le> n"
      "snd (queryLoop hid self dp c p n ?le ?w') = worldAfter hid self dp c p m ?w'"
      by blast
    with None have "snd (queryLoop hid self dp c p (Suc n) lastError w) =
        worldAfter hid self dp c p (Suc m) w"
      by (simp add: queryLoop_step del: queryLoop.simps)
    with m(1) show ?thesis by (intro exI[of _ "Suc m"]) simp
  qed
qed

lemmas scripted_defs =
  sendCommandOnce_def withClose_def tryReportLength_def featureExchange_def
  interruptExchange_def scriptedHid_def init_def findDevicePath_def


lemma attemptPayload_simps:
  "attemptPayload (Inl e) = None"
  "attemptPayload (Inr None) = None"
  "attemptPayload (Inr (Some [])) = None"
  "attemptPayload (Inr (Some (b # bs))) = extractPayload (b # bs)"
  by (simp_all add: attemptPayload_def)

lemma attemptError_simps:
  "attemptError self (Inl e) = Some e"
  "attemptError self (Inr None) = None"
  "attemptError self (Inr (Some [])) = None"
  "attemptError self (Inr (Some (b # bs))) =
     (case extractPayload (b # bs) of
        Some payload \<Rightarrow> time_sleep (commandDelaySeconds self)
      | None \<Rightarrow> None)"
  by (simp_all add: attemptError_def attemptPayload_def)

lemma cycleResult_0:
  "cycleResult hid self 0 w = fst (query hid self (commandValue Command_getBatteryStatus) None 4 w)"
  by (simp add: cycleResult_def)

lemma cycleResult_Suc:
  "cycleResult hid self (Suc k) w =
     cycleResult hid self k (snd (query hid self (commandValue Command_getBatteryStatus) None 4 w))"
  by (simp add: cycleResult_def)

lemma length_ge_1_iff: "(1 \<le> length xs) = (xs \<noteq> [])"
  by (cases xs) simp_all

lemma getBatteryStatusLoop_step:
  "getBatteryStatusLoop hid self (Suc n) w =
     (case cycleResult hid self 0 w of
        Inl e \<Rightarrow> (Inl e, self, cycleWorld hid self (Suc 0) w)
      | Inr payloadBytes \<Rightarrow>
          if accepted payloadBytes
          then (Inr (batteryStatusOfByte (payloadBytes ! 0)),
                self\<lparr>lastGoodBatteryStatus := Some (batteryStatusOfByte (payloadBytes ! 0))\<rparr>,
                cycleWorld hid self (Suc 0) w)
          else getBatteryStatusLoop hid self n (cycleWorld hid self (Suc 0) w))"
  by (cases "query hid self (commandValue Command_getBatteryStatus) None 4 w")
     (auto simp add: cycleResult_def accepted_def saneBattery_def Let_def length_ge_1_iff
           simp del: commandValue.simps One_nat_def split: sum.splits)

lemma cycleResult_shift:
  "cycleResult hid self (Suc k) w = cycleResult hid self k (cycleWorld hid self (Suc 0) w)"
  by (simp add: cycleResult_def)

lemma cycleWorld_shift:
  "cycleWorld hid self (Suc k) w = cycleWorld hid self k (cycleWorld hid self (Suc 0) w)"
  by simp

lemma battery_first_settled:
  "k < n \<Longrightarrow>
   (\<forall>i<k. \<exists>p. cycleResult hid self i w = Inr p \<and> \<not> accepted p) \<Longrightarrow>
   getBatteryStatusLoop hid self n w =
     (case cycleResult hid self k w of
        Inl e \<Rightarrow> (Inl e, self, cycleWorld hid self (Suc k) w)
      | Inr p \<Rightarrow>
          if accepted p
          then (Inr (batteryStatusOfByte (p ! 0)),
                self\<lparr>lastGoodBatteryStatus := Some (batteryStatusOfByte (p ! 0))\<rparr>,
                cycleWorld hid self (Suc k) w)
          else getBatteryStatusLoop hid self (n - Suc k) (cycleWorld hid self (Suc k) w))"
proof (induction k arbitrary: n w)
  case 0
  then obtain n' where n: "n = Suc n'" by (cases n) auto
  show ?case
    unfolding n
    by (simp add: getBatteryStatusLoop_step split: sum.splits
          del: getBatteryStatusLoop.simps cycleWorld.simps)
next
  case (Suc k)
  then obtain n' where n: "n = Suc n'" and kn: "k < n'" by (cases n) auto
  let ?w' = "cycleWorld hid self (Suc 0) w"
  from Suc.prems(2) obtain p where first: "cycleResult hid self 0 w = Inr p" "\<not> accepted p"
    by (auto dest: spec[of _ 0])
  have rest: "\<forall>i<k. \<exists>p. cycleResult hid self i ?w' = Inr p \<and> \<not> accepted p"
  proof (intro allI impI)
    fix i assume "i < k"
    then have "Suc i < Suc k" by simp
    with Suc.prems(2) obtain p where "cycleResult hid self (Suc i) w = Inr p" "\<not> accepted p"
      by blast
    then show "\<exists>p. cycleResult hid self i ?w' = Inr p \<and> \<not> accepted p"
      by (simp add: cycleResult_Suc)
  qed
  have step: "getBatteryStatusLoop hid self n w = getBatteryStatusLoop hid self n' ?w'"
    unfolding n using first
    by (simp add: getBatteryStatusLoop_step del: getBatteryStatusLoop.simps cycleWorld.simps)
  show ?case
    unfolding step Suc.IH[OF kn rest]
    by (simp add: n split: sum.splits flip: cycleResult_shift cycleWorld_shift
          del: cycleWorld.simps)
qed

lemma battery_all_rejected:
  "(\<forall>i<n. \<exists>p. cycleResult hid self i w = Inr p \<and> \<not> accepted p) \<Longrightarrow>
   getBatteryStatusLoop hid self n w =
     (case lastGoodBatteryStatus self of
        Some cached \<Rightarrow> (Inr cached, self, cycleWorld hid self n w)
      | None \<Rightarrow> (Inl (RuntimeError NoSaneBatteryValue None), self, cycleWorld hid self n w))"
proof (cases n)
  case 0
  then show ?thesis by (simp split: option.splits)
next
  case (Suc k)
  assume all: "\<forall>i<n. \<exists>p. cycleResult hid self i w = Inr p \<and> \<not> accepted p"
  then have before: "\<forall>i<k. \<exists>p. cycleResult hid self i w = Inr p \<and> \<not> accepted p"
    using Suc by simp
  from all Suc obtain p where last: "cycleResult hid self k w = Inr p" "\<not> accepted p"
    by auto
  have "k < n" using Suc by simp
  from battery_first_settled[OF this before] last Suc show ?thesis
    by (simp split: option.splits del: cycleWorld.simps)
qed

lemma queryLoop_pos:
  "0 < n \<Longrightarrow>
   queryLoop hid self dp c p n lastError w =
     (case attemptReturns self (fst (sendCommandOnce hid self dp c p w)) of
        Some payload \<Rightarrow> (Inr payload, snd (sendCommandOnce hid self dp c p w))
      | None \<Rightarrow>
          queryLoop hid self dp c p (n - 1)
            (case attemptError self (fst (sendCommandOnce hid self dp c p w)) of
               Some e \<Rightarrow> Some e | None \<Rightarrow> lastError)
            (snd (sendCommandOnce hid self dp c p w)))"
  by (cases n) (simp_all add: queryLoop_step split: option.splits del: queryLoop.simps)

lemma scripted_query_reply:
  assumes v: "vendorId self = 0x9886" and rl: "reportLengths self = rl # rls"
    and sl: "time_sleep (commandDelaySeconds self) = None"
    and ne: "reply \<noteq> []"
    and ex: "extractPayload (normalizeResponseFrame reply) \<noteq> None"
  shows "query scriptedHid self c pl 4 (Inr reply # w) =
           (Inr (the (extractPayload (normalizeResponseFrame reply))), w)"
proof -
  from ex obtain p where p: "extractPayload (normalizeResponseFrame reply) = Some p"
    by auto
  then have "normalizeResponseFrame reply \<noteq> []"
    by (auto simp add: extractPayload_def)
  then obtain b bs where "normalizeResponseFrame reply = b # bs"
    by (cases "normalizeResponseFrame reply") auto
  then show ?thesis
    using p
    by (simp add: query_def queryLoop_pos attemptReturns_accepted[OF sl] attemptPayload_simps
          sendCommandOnce_def withClose_def tryReportLength_def featureExchange_def
          interruptExchange_def scriptedHid_def findDevicePath_def v rl ne)
qed

lemma scripted_battery_reply:
  assumes v: "vendorId self = 0x9886" and rl: "reportLengths self = rl # rls"
    and sl: "time_sleep (commandDelaySeconds self) = None"
  shows "query scriptedHid self (commandValue Command_getBatteryStatus) None 4
           (Inr [0x02, 0x02, 0x01, b] # w) = (Inr [b], w)"
    and "query scriptedHid self (commandValue Command_getBatteryStatus) None 4
           (Inr [0x02, 0x02, 0x00] # w) = (Inr [], w)"
proof -
  have "extractPayload (normalizeResponseFrame [0x02, 0x02, 0x01, b]) = Some [b]"
    by (simp add: normalizeResponseFrame_def extractPayload_Some)
  then show "query scriptedHid self (commandValue Command_getBatteryStatus) None 4
           (Inr [0x02, 0x02, 0x01, b] # w) = (Inr [b], w)"
    using scripted_query_reply[OF v rl sl, of "[0x02, 0x02, 0x01, b]"] by simp
  have "extractPayload (normalizeResponseFrame [0x02, 0x02, 0x00]) = Some []"
    by (simp add: normalizeResponseFrame_def extractPayload_Some)
  then show "query scriptedHid self (commandValue Command_getBatteryStatus) None 4
           (Inr [0x02, 0x02, 0x00] # w) = (Inr [], w)"
    using scripted_query_reply[OF v rl sl, of "[0x02, 0x02, 0x00]"] by simp
qed

lemma accepted_simps:
  "accepted [] = False"
  "accepted [0x7F] = False"
  "accepted [0x85] = True"
  by (simp_all add: accepted_def saneBattery_def batteryStatusOfByte_def)

lemma getSliderValue_cases:
  "getSliderValue hid self sliderType saved w =
     (case query hid self 0x68 (Some [sliderType mod 256]) 4 w of
        (Inl e, w') \<Rightarrow> (Inl e, w')
      | (Inr payloadBytes, w') \<Rightarrow>
          if 4 \<le> length payloadBytes \<and> uint (payloadBytes ! 0) = 0x68
             \<and> uint (payloadBytes ! 1) = sliderType mod 256
          then (Inr (uint (payloadBytes ! (if saved then 3 else 2))), w')
          else (Inl (RuntimeError (UnexpectedSlider payloadBytes) None), w'))"
  by (auto simp add: getSliderValue_def and_255_mod Let_def split: prod.splits sum.splits)

lemma getNoiseGateMode_cases:
  "getNoiseGateMode hid self saved w =
     (case query hid self 0x6A None 4 w of
        (Inl e, w') \<Rightarrow> (Inl e, w')
      | (Inr payloadBytes, w') \<Rightarrow>
          if 3 \<le> length payloadBytes \<and> uint (payloadBytes ! 0) = 0x6A
          then (Inr (uint (payloadBytes ! (if saved then 2 else 1))), w')
          else (Inl (RuntimeError (UnexpectedNoiseGate payloadBytes) None), w'))"
  by (auto simp add: getNoiseGateMode_def Let_def split: prod.splits sum.splits)

lemma scripted_fresh_reply:
  assumes "extractPayload (normalizeResponseFrame reply) = Some payload"
  shows "query scriptedHid (init 0x9886 [64, 65] (Finite 0.08)) c pl 4 (Inr reply # w) = (Inr payload, w)"
proof -
  have v: "vendorId (init 0x9886 [64, 65] (Finite 0.08)) = 0x9886"
    and rl: "reportLengths (init 0x9886 [64, 65] (Finite 0.08)) = 64 # [65]"
    and sl: "time_sleep (commandDelaySeconds (init 0x9886 [64, 65] (Finite 0.08))) = None"
    by (simp_all add: init_def sleepMax_def)
  have ne: "reply \<noteq> []"
    using assms by (auto simp add: normalizeResponseFrame_def extractPayload_def)
  show ?thesis
    using scripted_query_reply[OF v rl sl ne, of c pl w] assms by simp
qed

lemma slider_reply:
  "query scriptedHid (init 0x9886 [64, 65] (Finite 0.08)) c pl 4 [Inr [0x02, 0x02, 0x04, 0x68, 0x05, 0x32, 0x28]]
     = (Inr [0x68, 0x05, 0x32, 0x28], [])"
  by (rule scripted_fresh_reply) (simp add: normalizeResponseFrame_def extractPayload_Some)

lemma noiseGate_reply:
  "query scriptedHid (init 0x9886 [64, 65] (Finite 0.08)) c pl 4 [Inr [0x02, 0x02, 0x03, 0x6A, 0x01, 0x02]]
     = (Inr [0x6A, 0x01, 0x02], [])"
  by (rule scripted_fresh_reply) (simp add: normalizeResponseFrame_def extractPayload_Some)

lemma scripted_silent_attempt:
  "sendCommandOnceLoop scriptedHid dp c p rls [] = (Inr None, [])"
  by (induction rls)
     (simp_all add: withClose_def tryReportLength_def featureExchange_def interruptExchange_def
        scriptedHid_def)

lemma scripted_silent_queryLoop:
  "queryLoop scriptedHid self dp c p n lastError [] =
     (Inl (RuntimeError (NoValidResponse c) lastError), [])"
  by (induction n arbitrary: lastError)
     (simp_all add: sendCommandOnce_def scripted_silent_attempt)

lemma scripted_silent_query:
  assumes "vendorId self = 0x9886"
  shows "query scriptedHid self c p retries [] = (Inl (RuntimeError (NoValidResponse c) None), [])"
proof -
  have "findDevicePath scriptedHid self [] = Inr [0x41]"
    using assms by (simp add: findDevicePath_def scriptedHid_def)
  then show ?thesis
    by (simp add: query_def scripted_silent_queryLoop)
qed

lemma cacheSane_init: "cacheSane (init vendorId' reportLengths' commandDelaySeconds')"
  by (simp add: cacheSane_def init_def)

lemma cacheSane_update: "saneBattery b \<Longrightarrow> cacheSane (self\<lparr>lastGoodBatteryStatus := Some b\<rparr>)"
  by (simp add: cacheSane_def)

lemma getBatteryStatusLoop_sane:
  "cacheSane self \<Longrightarrow> getBatteryStatusLoop hid self n w = (r, self', w') \<Longrightarrow>
   cacheSane self'
   \<and> (case r of
        Inr b \<Rightarrow> saneBattery b \<and> (self' = self \<or> self' = self\<lparr>lastGoodBatteryStatus := Some b\<rparr>)
      | Inl e \<Rightarrow> self' = self)"
proof (induction n arbitrary: w)
  case 0
  then show ?case
    by (auto simp add: cacheSane_def split: option.splits)
next
  case (Suc n)
  show ?case
  proof (cases "cycleResult hid self 0 w")
    case (Inl e)
    with Suc.prems show ?thesis
      by (auto simp add: getBatteryStatusLoop_step
            simp del: getBatteryStatusLoop.simps cycleWorld.simps)
  next
    case (Inr p)
    show ?thesis
    proof (cases "accepted p")
      case True
      with Inr Suc.prems show ?thesis
        by (auto simp add: getBatteryStatusLoop_step accepted_def cacheSane_update
              simp del: getBatteryStatusLoop.simps cycleWorld.simps)
    next
      case False
      with Inr Suc.prems(2)
      have "getBatteryStatusLoop hid self n (cycleWorld hid self (Suc 0) w) = (r, self', w')"
        by (simp add: getBatteryStatusLoop_step del: getBatteryStatusLoop.simps cycleWorld.simps)
      from Suc.IH[OF Suc.prems(1) this] show ?thesis .
    qed
  qed
qed

lemma getBatteryStatus_sane:
  "cacheSane self \<Longrightarrow> getBatteryStatus hid self retries w = (r, self', w') \<Longrightarrow>
   cacheSane self'
   \<and> (case r of
        Inr b \<Rightarrow> saneBattery b \<and> (self' = self \<or> self' = self\<lparr>lastGoodBatteryStatus := Some b\<rparr>)
      | Inl e \<Rightarrow> self' = self)"
  unfolding getBatteryStatus_def by (rule getBatteryStatusLoop_sane)

lemma snapshotBattery_sane:
  assumes "cacheSane self"
    and "snapshotBattery hid battery snapshot self w = (r, self', w')"
  shows "cacheSane self'
    \<and> (\<forall>snapshot'. r = Inr snapshot' \<longrightarrow>
          batteryEntry snapshot' = batteryEntry snapshot
          \<or> (\<exists>b. batteryEntry snapshot' = Some b \<and> saneBattery b))"
proof (cases battery)
  case False
  with assms show ?thesis by (auto simp add: snapshotBattery_def)
next
  case True
  obtain r0 self0 w0 where g: "getBatteryStatus hid self 6 w = (r0, self0, w0)"
    by (cases "getBatteryStatus hid self 6 w") auto
  from getBatteryStatus_sane[OF assms(1) g] assms(2) True g show ?thesis
    by (auto simp add: snapshotBattery_def split: sum.splits)
qed

lemma snapshotHeadset_battery:
  "snapshotHeadset hid headset snapshot self w = (Inr snapshot', w') \<Longrightarrow>
   batteryEntry snapshot' = batteryEntry snapshot"
  by (auto simp add: snapshotHeadset_def split: if_splits prod.splits sum.splits)

lemma snapshotSidetone_battery:
  "snapshotSidetone hid sidetone snapshot self w = (Inr snapshot', w') \<Longrightarrow>
   batteryEntry snapshot' = batteryEntry snapshot"
  by (auto simp add: snapshotSidetone_def split: if_splits prod.splits sum.splits)

lemma getSnapshot_sane:
  assumes "cacheSane self"
    and "getSnapshot hid time self battery headset sidetone includeTimestamp w = (r, self', w')"
  shows "cacheSane self'
    \<and> (\<forall>snapshot b. r = Inr snapshot \<and> batteryEntry snapshot = Some b \<longrightarrow> saneBattery b)"
proof -
  let ?s0 = "\<lparr>timestampEntry = (if includeTimestamp then Some (time w) else None),
               batteryEntry = None, headsetEntry = None, sidetoneEntry = None\<rparr>"
  obtain r1 self1 w1 where b: "snapshotBattery hid battery ?s0 self w = (r1, self1, w1)"
    by (cases "snapshotBattery hid battery ?s0 self w") auto
  note s1 = snapshotBattery_sane[OF assms(1) b]
  show ?thesis
  proof (cases r1)
    case (Inl e)
    with assms(2) b s1 show ?thesis
      by (auto simp add: getSnapshot_def Let_def)
  next
    case (Inr snapshot1)
    with s1 have e1: "batteryEntry snapshot1 = None \<or> (\<exists>b. batteryEntry snapshot1 = Some b \<and> saneBattery b)"
      by simp
    from assms(2) b Inr have self': "self' = self1"
      by (auto simp add: getSnapshot_def Let_def split: prod.splits sum.splits)
    have "\<forall>snapshot b. r = Inr snapshot \<and> batteryEntry snapshot = Some b \<longrightarrow> saneBattery b"
      using assms(2) b Inr e1
      by (auto simp add: getSnapshot_def Let_def split: prod.splits sum.splits
            dest!: snapshotHeadset_battery snapshotSidetone_battery)
    with s1 self' show ?thesis by simp
  qed
qed

lemma perform_sane:
  "cacheSane self \<Longrightarrow> cacheSane (fst (perform hid time operation (self, w)))"
proof (cases operation)
  case (CallGetBatteryStatus retries)
  assume c: "cacheSane self"
  obtain r self' w' where g: "getBatteryStatus hid self retries w = (r, self', w')"
    by (cases "getBatteryStatus hid self retries w") auto
  from getBatteryStatus_sane[OF c g] g CallGetBatteryStatus show ?thesis by simp
next
  case (CallGetSnapshot battery headset sidetone includeTimestamp)
  assume c: "cacheSane self"
  obtain r self' w' where g:
    "getSnapshot hid time self battery headset sidetone includeTimestamp w = (r, self', w')"
    by (cases "getSnapshot hid time self battery headset sidetone includeTimestamp w") auto
  from getSnapshot_sane[OF c g] g CallGetSnapshot show ?thesis by simp
qed simp_all

lemma session_sane:
  "cacheSane (fst s) \<Longrightarrow> cacheSane (fst (session hid time operations s))"
proof (induction operations arbitrary: s)
  case Nil
  then show ?case by simp
next
  case (Cons operation rest)
  obtain self w where s: "s = (self, w)" by (cases s)
  with Cons.prems have "cacheSane (fst (perform hid time operation s))"
    by (simp add: perform_sane)
  from Cons.IH[OF this] show ?case by simp
qed

lemma and_255_range: "0 \<le> (x::int) AND 0xFF \<and> x AND 0xFF < 256"
  by (simp add: and_255_mod)

lemma paddedBody_in_range:
  "x \<in> set (paddedBody commandId payloadBytes bodyLength') \<Longrightarrow> 0 \<le> x \<and> x < 256"
  using and_255_range
  by (auto simp add: paddedBody_def frameBytes_eq Let_def simp del: and_255_mod)

lemma toBytes_lossless:
  "(\<And>x. x \<in> set xs \<Longrightarrow> 0 \<le> x \<and> x < 256) \<Longrightarrow> map uint (toBytes xs) = xs"
  by (induction xs) (simp_all add: toBytes_def uint_word_of_int_8)

lemma sentOnly_refl: "sentOnly frames s s"
  by (simp add: sentOnly_def)

lemma sentOnly_same_log: "fst s' = fst s \<Longrightarrow> sentOnly frames s s'"
  by (simp add: sentOnly_def)

lemma sentOnly_trans:
  "sentOnly frames s s' \<Longrightarrow> sentOnly frames s' s'' \<Longrightarrow> sentOnly frames s s''"
proof -
  assume a: "sentOnly frames s s'" and b: "sentOnly frames s' s''"
  from a obtain xs where xs: "fst s' = fst s @ xs" "set xs \<subseteq> frames"
    unfolding sentOnly_def by (metis append_take_drop_id)
  from b obtain ys where ys: "fst s'' = fst s' @ ys" "set ys \<subseteq> frames"
    unfolding sentOnly_def by (metis append_take_drop_id)
  from xs ys show ?thesis
    by (simp add: sentOnly_def)
qed

lemma sentOnly_mono: "sentOnly frames s s' \<Longrightarrow> frames \<subseteq> frames' \<Longrightarrow> sentOnly frames' s s'"
  by (auto simp add: sentOnly_def)

lemma sentOnly_append: "fst s' = fst s @ [frame] \<Longrightarrow> frame \<in> frames \<Longrightarrow> sentOnly frames s s'"
  by (simp add: sentOnly_def)

lemma featureExchange_sent:
  "sentOnly {requestFrame} s (snd (featureExchange (recording hid) requestFrame reportLength s))"
  by (auto simp add: featureExchange_def recording_def sentOnly_def
        split: prod.splits option.splits sum.splits)

lemma interruptExchange_sent:
  "sentOnly {requestFrame} s (snd (interruptExchange (recording hid) requestFrame reportLength s))"
  by (auto simp add: interruptExchange_def recording_def sentOnly_def
        split: prod.splits option.splits sum.splits)


lemma open_path_recording:
  "fst (snd (open_path (recording hid) devicePath s)) = fst s"
  by (simp add: recording_def split: prod.splits)

lemma set_nonblocking_recording:
  "fst (snd (set_nonblocking (recording hid) flag s)) = fst s"
  by (simp add: recording_def split: prod.splits)

lemma hid_close_recording:
  "fst (snd (hid_close (recording hid) s)) = fst s"
  by (simp add: recording_def split: prod.splits)

lemma tryReportLength_sent:
  "sentOnly {buildRequestFrame commandId payloadBytes reportLength} s
     (snd (tryReportLength (recording hid) devicePath commandId payloadBytes reportLength s))"
proof -
  let ?f = "buildRequestFrame commandId payloadBytes reportLength"
  obtain r1 s1 where o: "open_path (recording hid) devicePath s = (r1, s1)"
    by (cases "open_path (recording hid) devicePath s")
  then have l1: "fst s1 = fst s"
    using open_path_recording[of hid devicePath s] by simp
  obtain r2 s2 where n: "set_nonblocking (recording hid) 0 s1 = (r2, s2)"
    by (cases "set_nonblocking (recording hid) 0 s1")
  then have l2: "fst s2 = fst s"
    using set_nonblocking_recording[of hid 0 s1] l1 by simp
  obtain r3 s3 where f: "featureExchange (recording hid) ?f reportLength s2 = (r3, s3)"
    by (cases "featureExchange (recording hid) ?f reportLength s2")
  then have a3: "sentOnly {?f} s2 s3"
    using featureExchange_sent[of ?f s2 hid reportLength] by simp
  have a4: "sentOnly {?f} s3 (snd (interruptExchange (recording hid) ?f reportLength s3))"
    by (rule interruptExchange_sent)
  have base: "sentOnly {?f} s s2"
    using l2 by (simp add: sentOnly_same_log)
  have s1: "sentOnly {?f} s s1"
    using l1 by (simp add: sentOnly_same_log)
  show ?thesis
    using o n f s1 base sentOnly_trans[OF base a3] sentOnly_trans[OF sentOnly_trans[OF base a3] a4]
    by (auto simp add: tryReportLength_def Let_def split: option.splits sum.splits)
qed

lemma withClose_sent:
  "sentOnly frames s (snd r) \<Longrightarrow> sentOnly frames s (snd (withClose (recording hid) r))"
  using hid_close_recording[of hid "snd r"]
  by (cases r) (simp add: withClose_def sentOnly_def)

lemma sendCommandOnceLoop_sent:
  "sentOnly (buildRequestFrame commandId payloadBytes ` set rls) s
     (snd (sendCommandOnceLoop (recording hid) devicePath commandId payloadBytes rls s))"
proof (induction rls arbitrary: s)
  case Nil
  show ?case by (simp add: sentOnly_refl)
next
  case (Cons reportLength rest)
  let ?F = "buildRequestFrame commandId payloadBytes ` set (reportLength # rest)"
  let ?r = "withClose (recording hid)
              (tryReportLength (recording hid) devicePath commandId payloadBytes reportLength s)"
  have "sentOnly {buildRequestFrame commandId payloadBytes reportLength} s (snd ?r)"
    by (intro withClose_sent tryReportLength_sent)
  then have one: "sentOnly ?F s (snd ?r)"
    by (rule sentOnly_mono) simp
  have "sentOnly (buildRequestFrame commandId payloadBytes ` set rest) (snd ?r)
     (snd (sendCommandOnceLoop (recording hid) devicePath commandId payloadBytes rest (snd ?r)))"
    by (rule Cons.IH)
  then have "sentOnly ?F (snd ?r)
     (snd (sendCommandOnceLoop (recording hid) devicePath commandId payloadBytes rest (snd ?r)))"
    by (rule sentOnly_mono) auto
  from sentOnly_trans[OF one this] one show ?case
    by (cases ?r) (auto split: sum.splits option.splits)
qed

lemma queryLoop_sent:
  "sentOnly (buildRequestFrame commandId payloadBytes ` set (reportLengths self)) s
     (snd (queryLoop (recording hid) self devicePath commandId payloadBytes n lastError s))"
proof (induction n arbitrary: lastError s)
  case 0
  show ?case by (simp add: sentOnly_refl)
next
  case (Suc n)
  let ?F = "buildRequestFrame commandId payloadBytes ` set (reportLengths self)"
  let ?s' = "snd (sendCommandOnce (recording hid) self devicePath commandId payloadBytes s)"
  have one: "sentOnly ?F s ?s'"
    unfolding sendCommandOnce_def by (rule sendCommandOnceLoop_sent)
  have rest: "sentOnly ?F s
     (snd (queryLoop (recording hid) self devicePath commandId payloadBytes n le ?s'))" for le
    by (rule sentOnly_trans[OF one Suc.IH])
  show ?case
    using one rest
    by (simp add: queryLoop_step del: queryLoop.simps split: option.splits)
qed

lemma query_sent:
  "sentOnly (buildRequestFrame commandId payloadBytes ` set (reportLengths self)) s
     (snd (query (recording hid) self commandId payloadBytes retries s))"
  by (simp add: query_def queryLoop_sent sentOnly_refl split: sum.splits)


lemma sentOnly_sent:
  assumes "sentOnly frames s s'"
  shows "\<exists>sent. fst s' = fst s @ sent \<and> set sent \<subseteq> frames"
  using assms unfolding sentOnly_def by (metis append_take_drop_id)

lemma getSliderValue_world:
  "snd (getSliderValue hid self sliderType saved w) =
     snd (query hid self 0x68 (Some [sliderType mod 256]) 4 w)"
  by (simp add: getSliderValue_cases split: prod.splits sum.splits)

lemma getNoiseGateMode_world:
  "snd (getNoiseGateMode hid self saved w) = snd (query hid self 0x6A None 4 w)"
  by (simp add: getNoiseGateMode_cases split: prod.splits sum.splits)

lemma slider_frame:
  "buildRequestFrame 0x68 (Some [sliderType mod 256]) reportLength =
     reportIdPrefix reportLength @ [0x02, 0x68, 0x01, word_of_int (sliderType mod 256)]
       @ replicate (nat (bodyLength reportLength - 4)) 0"
  by (simp add: buildRequestFrame_layout payloadList_def)

lemma noiseGate_frame:
  "buildRequestFrame 0x6A None reportLength =
     reportIdPrefix reportLength @ [0x02, 0x6A, 0x00]
       @ replicate (nat (bodyLength reportLength - 3)) 0"
  by (simp add: buildRequestFrame_layout payloadList_def)

lemma getSliderValue_sent:
  "\<exists>sent. fst (snd (getSliderValue (recording hid) self sliderType saved (logged, w))) = logged @ sent
     \<and> (\<forall>frame\<in>set sent. \<exists>reportLength\<in>set (reportLengths self).
           frame = reportIdPrefix reportLength
                     @ [0x02, 0x68, 0x01, word_of_int (sliderType mod 256)]
                     @ replicate (nat (bodyLength reportLength - 4)) 0)"
proof -
  from sentOnly_sent[OF query_sent[of "0x68" "Some [sliderType mod 256]" self "(logged, w)" hid 4]]
  obtain sent where sent:
    "fst (snd (query (recording hid) self 0x68 (Some [sliderType mod 256]) 4 (logged, w))) = logged @ sent"
    "set sent \<subseteq> buildRequestFrame 0x68 (Some [sliderType mod 256]) ` set (reportLengths self)"
    by auto
  from sent(2) have "\<forall>frame\<in>set sent. \<exists>reportLength\<in>set (reportLengths self).
           frame = reportIdPrefix reportLength
                     @ [0x02, 0x68, 0x01, word_of_int (sliderType mod 256)]
                     @ replicate (nat (bodyLength reportLength - 4)) 0"
    unfolding slider_frame[symmetric] by auto
  with sent(1) show ?thesis
    unfolding getSliderValue_world by blast
qed

lemma getNoiseGateMode_sent:
  "\<exists>sent. fst (snd (getNoiseGateMode (recording hid) self saved (logged, w))) = logged @ sent
     \<and> (\<forall>frame\<in>set sent. \<exists>reportLength\<in>set (reportLengths self).
           frame = reportIdPrefix reportLength @ [0x02, 0x6A, 0x00]
                     @ replicate (nat (bodyLength reportLength - 3)) 0)"
proof -
  from sentOnly_sent[OF query_sent[of "0x6A" None self "(logged, w)" hid 4]]
  obtain sent where sent:
    "fst (snd (query (recording hid) self 0x6A None 4 (logged, w))) = logged @ sent"
    "set sent \<subseteq> buildRequestFrame 0x6A None ` set (reportLengths self)"
    by auto
  from sent(2) have "\<forall>frame\<in>set sent. \<exists>reportLength\<in>set (reportLengths self).
           frame = reportIdPrefix reportLength @ [0x02, 0x6A, 0x00]
                     @ replicate (nat (bodyLength reportLength - 3)) 0"
    unfolding noiseGate_frame[symmetric] by auto
  with sent(1) show ?thesis
    unfolding getNoiseGateMode_world by blast
qed

lemma recorded_query_reply:
  assumes v: "vendorId self = 0x9886" and rl: "reportLengths self = rl # rls"
    and sl: "time_sleep (commandDelaySeconds self) = None"
    and ne: "reply \<noteq> []"
    and ex: "extractPayload (normalizeResponseFrame reply) \<noteq> None"
  shows "query (recording scriptedHid) self c pl 4 (logged, Inr reply # w) =
           (Inr (the (extractPayload (normalizeResponseFrame reply))),
            (logged @ [buildRequestFrame c pl rl], w))"
proof -
  from ex obtain p where p: "extractPayload (normalizeResponseFrame reply) = Some p"
    by auto
  then have "normalizeResponseFrame reply \<noteq> []"
    by (auto simp add: extractPayload_def)
  then obtain b bs where "normalizeResponseFrame reply = b # bs"
    by (cases "normalizeResponseFrame reply") auto
  then show ?thesis
    using p
    by (simp add: query_def queryLoop_pos attemptReturns_accepted[OF sl] attemptPayload_simps
          sendCommandOnce_def withClose_def tryReportLength_def featureExchange_def
          interruptExchange_def recording_def scriptedHid_def findDevicePath_def v rl ne)
qed

lemma recorded_fresh_reply:
  assumes "extractPayload (normalizeResponseFrame reply) = Some payload"
  shows "query (recording scriptedHid) (init 0x9886 [64, 65] (Finite 0.08)) c pl 4
           (logged, Inr reply # w) = (Inr payload, (logged @ [buildRequestFrame c pl 64], w))"
proof -
  have v: "vendorId (init 0x9886 [64, 65] (Finite 0.08)) = 0x9886"
    and rl: "reportLengths (init 0x9886 [64, 65] (Finite 0.08)) = 64 # [65]"
    and sl: "time_sleep (commandDelaySeconds (init 0x9886 [64, 65] (Finite 0.08))) = None"
    by (simp_all add: init_def sleepMax_def)
  have ne: "reply \<noteq> []"
    using assms by (auto simp add: normalizeResponseFrame_def extractPayload_def)
  show ?thesis
    using recorded_query_reply[OF v rl sl ne, of c pl logged w] assms by simp
qed

lemma sentOnly_length: "sentOnly frames s s' \<Longrightarrow> length (fst s) \<le> length (fst s')"
  using sentOnly_sent[of frames s s'] by auto

lemma featureExchange_grew:
  "fst (featureExchange (recording hid) requestFrame reportLength s) = Inr (Some r) \<Longrightarrow>
   length (fst s) < length (fst (snd (featureExchange (recording hid) requestFrame reportLength s)))"
  by (auto simp add: featureExchange_def recording_def
        split: prod.splits option.splits sum.splits if_splits)

lemma interruptExchange_grew:
  "fst (interruptExchange (recording hid) requestFrame reportLength s) = Inr (Some r) \<Longrightarrow>
   length (fst s) < length (fst (snd (interruptExchange (recording hid) requestFrame reportLength s)))"
  by (auto simp add: interruptExchange_def recording_def
        split: prod.splits option.splits sum.splits if_splits)

lemma tryReportLength_grew:
  assumes "fst (tryReportLength (recording hid) devicePath commandId payloadBytes reportLength s)
             = Inr (Some r)"
  shows "length (fst s)
           < length (fst (snd (tryReportLength (recording hid) devicePath commandId payloadBytes
                                 reportLength s)))"
proof -
  let ?f = "buildRequestFrame commandId payloadBytes reportLength"
  obtain r1 s1 where o: "open_path (recording hid) devicePath s = (r1, s1)"
    by (cases "open_path (recording hid) devicePath s")
  then have l1: "fst s1 = fst s"
    using open_path_recording[of hid devicePath s] by simp
  obtain r2 s2 where n: "set_nonblocking (recording hid) 0 s1 = (r2, s2)"
    by (cases "set_nonblocking (recording hid) 0 s1")
  then have l2: "fst s2 = fst s"
    using set_nonblocking_recording[of hid 0 s1] l1 by simp
  obtain r3 s3 where f: "featureExchange (recording hid) ?f reportLength s2 = (r3, s3)"
    by (cases "featureExchange (recording hid) ?f reportLength s2")
  have le3: "length (fst s) \<le> length (fst s3)"
    using sentOnly_length[OF featureExchange_sent[of ?f s2 hid reportLength]] f l2 by simp
  have g3: "r3 = Inr (Some r') \<Longrightarrow> length (fst s) < length (fst s3)" for r'
    using featureExchange_grew[of hid ?f reportLength s2 r'] f l2 by simp
  have g4: "fst (interruptExchange (recording hid) ?f reportLength s3) = Inr (Some r') \<Longrightarrow>
      length (fst s) < length (fst (snd (interruptExchange (recording hid) ?f reportLength s3)))"
    for r'
    using interruptExchange_grew[of hid ?f reportLength s3 r'] le3 by simp
  show ?thesis
    using assms o n f g3 g4
    by (auto simp add: tryReportLength_def Let_def split: option.splits sum.splits)
qed

lemma withClose_fst: "fst (withClose hid r) = fst r"
  by (cases r) (simp add: withClose_def)

lemma withClose_log: "fst (snd (withClose (recording hid) r)) = fst (snd r)"
  using hid_close_recording[of hid "snd r"] by (cases r) (simp add: withClose_def)

lemma sendCommandOnceLoop_grew:
  "fst (sendCommandOnceLoop (recording hid) devicePath commandId payloadBytes rls s) = Inr (Some r)
   \<Longrightarrow> length (fst s)
         < length (fst (snd (sendCommandOnceLoop (recording hid) devicePath commandId payloadBytes
                               rls s)))"
proof (induction rls arbitrary: s)
  case Nil
  then show ?case by simp
next
  case (Cons reportLength rest)
  let ?t = "tryReportLength (recording hid) devicePath commandId payloadBytes reportLength s"
  let ?r = "withClose (recording hid) ?t"
  have le: "length (fst s) \<le> length (fst (snd ?r))"
    using sentOnly_length[OF tryReportLength_sent[of commandId payloadBytes reportLength s hid devicePath]]
    by (simp add: withClose_log)
  show ?case
  proof (cases "fst ?r")
    case (Inl e)
    with Cons.prems show ?thesis
      by (cases ?r) (auto split: sum.splits option.splits)
  next
    case (Inr found)
    show ?thesis
    proof (cases found)
      case (Some r')
      with Inr have "fst ?t = Inr (Some r')"
        by (simp add: withClose_fst)
      from tryReportLength_grew[OF this] have "length (fst s) < length (fst (snd ?r))"
        by (simp add: withClose_log)
      with Inr Some show ?thesis
        by (cases ?r) (auto split: sum.splits option.splits)
    next
      case None
      with Inr Cons.prems
      have "fst (sendCommandOnceLoop (recording hid) devicePath commandId payloadBytes rest (snd ?r))
          = Inr (Some r)"
        by (cases ?r) (auto split: sum.splits option.splits)
      from Cons.IH[OF this] le Inr None show ?thesis
        by (cases ?r) (auto split: sum.splits option.splits)
    qed
  qed
qed

lemma attemptReturns_Some:
  "attemptReturns self outcome = Some payload \<Longrightarrow> \<exists>r. outcome = Inr (Some r)"
  by (auto simp add: attemptReturns_def attemptPayload_def split: sum.splits option.splits)

lemma queryLoop_grew:
  "fst (queryLoop (recording hid) self devicePath commandId payloadBytes n lastError s) = Inr payload
   \<Longrightarrow> length (fst s)
         < length (fst (snd (queryLoop (recording hid) self devicePath commandId payloadBytes n
                               lastError s)))"
proof (induction n arbitrary: lastError s)
  case 0
  then show ?case by simp
next
  case (Suc n)
  let ?a = "sendCommandOnce (recording hid) self devicePath commandId payloadBytes s"
  have le: "length (fst s) \<le> length (fst (snd ?a))"
    unfolding sendCommandOnce_def
    using sentOnly_length[OF sendCommandOnceLoop_sent[of commandId payloadBytes "reportLengths self"
            s hid devicePath]]
    by simp
  show ?case
  proof (cases "attemptReturns self (fst ?a)")
    case (Some p)
    from attemptReturns_Some[OF this] obtain r where "fst ?a = Inr (Some r)"
      by blast
    then have "length (fst s) < length (fst (snd ?a))"
      unfolding sendCommandOnce_def by (rule sendCommandOnceLoop_grew)
    with Some show ?thesis
      by (simp add: queryLoop_step del: queryLoop.simps)
  next
    case None
    let ?le = "case attemptError self (fst ?a) of Some e \<Rightarrow> Some e | None \<Rightarrow> lastError"
    from None Suc.prems
    have "fst (queryLoop (recording hid) self devicePath commandId payloadBytes n ?le (snd ?a))
        = Inr payload"
      by (simp add: queryLoop_step del: queryLoop.simps)
    from Suc.IH[OF this] le None show ?thesis
      by (simp add: queryLoop_step del: queryLoop.simps)
  qed
qed

lemma query_grew:
  "fst (query (recording hid) self commandId payloadBytes retries s) = Inr payload \<Longrightarrow>
   length (fst s) < length (fst (snd (query (recording hid) self commandId payloadBytes retries s)))"
  by (cases "findDevicePath (recording hid) self s") (simp_all add: query_def queryLoop_grew)


lemma getSliderValue_grew:
  assumes "fst (getSliderValue (recording hid) self sliderType saved s) = Inr value"
  shows "length (fst s)
           < length (fst (snd (getSliderValue (recording hid) self sliderType saved s)))"
proof -
  from assms obtain payload where
    "fst (query (recording hid) self 0x68 (Some [sliderType mod 256]) 4 s) = Inr payload"
    by (auto simp add: getSliderValue_cases split: prod.splits sum.splits if_splits)
  from query_grew[OF this] show ?thesis
    by (simp add: getSliderValue_world)
qed

lemma getNoiseGateMode_grew:
  assumes "fst (getNoiseGateMode (recording hid) self saved s) = Inr value"
  shows "length (fst s) < length (fst (snd (getNoiseGateMode (recording hid) self saved s)))"
proof -
  from assms obtain payload where
    "fst (query (recording hid) self 0x6A None 4 s) = Inr payload"
    by (auto simp add: getNoiseGateMode_cases split: prod.splits sum.splits if_splits)
  from query_grew[OF this] show ?thesis
    by (simp add: getNoiseGateMode_world)
qed

lemma recorded_slider_reply:
  "query (recording scriptedHid) (init 0x9886 [64, 65] (Finite 0.08)) c pl 4
       (logged, [Inr [0x02, 0x02, 0x04, 0x68, 0x05, 0x32, 0x28]])
     = (Inr [0x68, 0x05, 0x32, 0x28], (logged @ [buildRequestFrame c pl 64], []))"
  by (rule recorded_fresh_reply) (simp add: normalizeResponseFrame_def extractPayload_Some)

lemma recorded_noiseGate_reply:
  "query (recording scriptedHid) (init 0x9886 [64, 65] (Finite 0.08)) c pl 4
       (logged, [Inr [0x02, 0x02, 0x03, 0x6A, 0x01, 0x02]])
     = (Inr [0x6A, 0x01, 0x02], (logged @ [buildRequestFrame c pl 64], []))"
  by (rule recorded_fresh_reply) (simp add: normalizeResponseFrame_def extractPayload_Some)

section \<open>The frame codec\<close>

text \<open>
  Claim C3. \<open>_extractPayload\<close> returns \<open>None\<close> exactly when the frame has fewer than
  3 bytes, or its first byte is not \<open>0x02\<close>, or its second byte is not \<open>0x02\<close>.
  Otherwise it returns \<open>frame[3 : 3 + n]\<close>, where \<open>n\<close> is \<open>frame[2]\<close> bounded above
  by \<open>len(frame) - 3\<close>: the slice ends inside the buffer, has exactly \<open>n\<close> bytes, and
  its byte \<open>i\<close> is byte \<open>3 + i\<close> of the frame. In particular
  \<open>[0x02, 0x02, 0x01, 0x55]\<close> gives \<open>[0x55]\<close> and \<open>[0x02, 0x01, 0x01, 0x55]\<close> gives
  \<open>None\<close>.
\<close>

theorem extractPayload_spec:
  "(extractPayload frame = None \<longleftrightarrow>
      (length frame < 3 \<or> frame ! 0 \<noteq> 0x02 \<or> frame ! 1 \<noteq> 0x02))
   \<and> (\<not> (length frame < 3 \<or> frame ! 0 \<noteq> 0x02 \<or> frame ! 1 \<noteq> 0x02) \<longrightarrow>
        (let n = min (unat (frame ! 2)) (length frame - 3)
         in 3 + n \<le> length frame
            \<and> extractPayload frame = Some (take n (drop 3 frame))
            \<and> length (take n (drop 3 frame)) = n
            \<and> (\<forall>i<n. take n (drop 3 frame) ! i = frame ! (3 + i))))
   \<and> extractPayload [0x02, 0x02, 0x01, 0x55] = Some [0x55]
   \<and> extractPayload [0x02, 0x01, 0x01, 0x55] = None"
proof (intro conjI impI)
  show "extractPayload frame = None \<longleftrightarrow>
      (length frame < 3 \<or> frame ! 0 \<noteq> 0x02 \<or> frame ! 1 \<noteq> 0x02)"
    by (rule extractPayload_None_iff)
next
  assume ok: "\<not> (length frame < 3 \<or> frame ! 0 \<noteq> 0x02 \<or> frame ! 1 \<noteq> 0x02)"
  then have len: "3 \<le> length frame" and b0: "frame ! 0 = 0x02" and b1: "frame ! 1 = 0x02"
    by simp_all
  show "let n = min (unat (frame ! 2)) (length frame - 3)
         in 3 + n \<le> length frame
            \<and> extractPayload frame = Some (take n (drop 3 frame))
            \<and> length (take n (drop 3 frame)) = n
            \<and> (\<forall>i<n. take n (drop 3 frame) ! i = frame ! (3 + i))"
    using len extractPayload_Some[OF len b0 b1] by (simp add: Let_def)
next
  show "extractPayload [0x02, 0x02, 0x01, 0x55] = Some [0x55]"
    by (simp add: extractPayload_Some)
next
  show "extractPayload [0x02, 0x01, 0x01, 0x55] = None"
    by (simp add: extractPayload_None_iff)
qed

text \<open>
  The theorem at a frame whose length byte (5) exceeds the two bytes that follow it,
  and at a frame that is too short.
\<close>

theorem extractPayload_spec_witness:
  "extractPayload [0x02, 0x02, 0x05, 0x11, 0x22] = Some [0x11, 0x22]
   \<and> extractPayload [0x02, 0x02] = None"
  using extractPayload_spec[of "[0x02, 0x02, 0x05, 0x11, 0x22]"]
        extractPayload_spec[of "[0x02, 0x02]"]
  by (simp add: Let_def)

text \<open>
  Claim C1. A well-formed status-ok response frame has the body
  \<open>[0x02, 0x02, n] + payload + padding\<close> with \<open>n\<close> the length of the payload, and may
  have one leading \<open>0x00\<close> report-id byte. For every payload, every padding and both
  forms, \<open>_extractPayload(_normalizeResponseFrame(echo))\<close> is the payload. The echo of
  a request is such a frame: for every command id, every payload of at most 255 bytes
  and every report length, the request frame with its command byte replaced by the
  status-ok code \<open>0x02\<close> gives back the payload of the request.
\<close>

theorem echo_roundtrip:
  "(unat n = length payload \<longrightarrow>
      extractPayload (normalizeResponseFrame ([0x02, 0x02, n] @ payload @ padding)) = Some payload
      \<and> extractPayload (normalizeResponseFrame (0x00 # [0x02, 0x02, n] @ payload @ padding)) = Some payload)
   \<and> (length payload \<le> 255 \<longrightarrow>
      extractPayload (normalizeResponseFrame
        ((buildRequestFrame commandId (Some (map uint payload)) reportLength)
           [length (reportIdPrefix reportLength) + 1 := 0x02])) = Some payload)"
proof (intro conjI impI)
  assume n: "unat n = length payload"
  show "extractPayload (normalizeResponseFrame ([0x02, 0x02, n] @ payload @ padding)) = Some payload"
    using extract_wellformed[OF n] by (simp add: normalize_body)
  show "extractPayload (normalizeResponseFrame (0x00 # [0x02, 0x02, n] @ payload @ padding)) = Some payload"
    using extract_wellformed[OF n] by (simp add: normalize_prefixed)
next
  assume le: "length payload \<le> 255"
  let ?n = "word_of_nat (length payload) :: byte"
  let ?pad = "replicate (nat (bodyLength reportLength - (3 + int (length payload)))) (0::byte)"
  have n: "unat ?n = length payload"
    using le by (simp add: unat_of_nat take_bit_eq_mod)
  have echo: "(buildRequestFrame commandId (Some (map uint payload)) reportLength)
           [length (reportIdPrefix reportLength) + 1 := 0x02]
        = reportIdPrefix reportLength @ [0x02, 0x02, ?n] @ payload @ ?pad"
    by (simp add: buildRequestFrame_layout payloadList_def list_update_append o_def)
  show "extractPayload (normalizeResponseFrame
        ((buildRequestFrame commandId (Some (map uint payload)) reportLength)
           [length (reportIdPrefix reportLength) + 1 := 0x02])) = Some payload"
    unfolding echo using extract_wellformed[OF n, of ?pad]
    by (cases "reportLength = 65") (simp_all add: reportIdPrefix_def normalize_body normalize_prefixed)
qed


text \<open>
  The theorem at the payload \<open>[0x55]\<close>, with two bytes of padding, and at the echo of
  a slider request of report length 65.
\<close>

theorem echo_roundtrip_witness:
  "extractPayload (normalizeResponseFrame [0x02, 0x02, 0x01, 0x55, 0x00, 0x00]) = Some [0x55]
   \<and> extractPayload (normalizeResponseFrame [0x00, 0x02, 0x02, 0x01, 0x55, 0x00, 0x00]) = Some [0x55]
   \<and> extractPayload (normalizeResponseFrame
         ((buildRequestFrame 0x68 (Some [0x55]) 65)[2 := 0x02])) = Some [0x55]"
proof -
  have i: "length (reportIdPrefix 65) + 1 = 2"
    by (simp add: reportIdPrefix_def)
  have p: "map uint [0x55 :: byte] = [0x55]"
    by simp
  show ?thesis
    using echo_roundtrip[where n = 1 and payload = "[0x55]" and padding = "[0x00, 0x00]"
            and commandId = "0x68" and reportLength = 65]
    unfolding i p by simp
qed

text \<open>
  Claim C4, as amended. For every command id, payload and report length the frame is
  \<open>[0x02, commandId & 0xFF, len(payload) & 0xFF]\<close>, the payload values (each reduced
  \<open>& 0xFF\<close>) and zero padding, after one \<open>0x00\<close> report-id byte when the report
  length is 65. The body has the body length (64 for report length 65, the report
  length otherwise) whenever the three header bytes and the payload fit in it; a
  longer frame is neither padded nor cut, so in general the body has the larger of the
  body length and \<open>3 + len(payload)\<close> bytes. With no payload the length byte is
  \<open>0x00\<close> and only padding follows; \<open>buildRequestFrame(0x7C, None, 64)\<close> is
  \<open>[0x02, 0x7C, 0x00]\<close> and 61 zero bytes, and with 65 the same after a \<open>0x00\<close>.
\<close>

theorem buildRequestFrame_padded:
  "map uint (buildRequestFrame commandId payloadBytes reportLength) =
      map uint (reportIdPrefix reportLength)
        @ [0x02, commandId mod 256, int (length (payloadList payloadBytes)) mod 256]
        @ map (\<lambda>value. value mod 256) (payloadList payloadBytes)
        @ replicate (nat (bodyLength reportLength - (3 + int (length (payloadList payloadBytes))))) 0
   \<and> length (buildRequestFrame commandId payloadBytes reportLength) =
        length (reportIdPrefix reportLength)
          + max (nat (bodyLength reportLength)) (3 + length (payloadList payloadBytes))
   \<and> (3 + int (length (payloadList payloadBytes)) \<le> bodyLength reportLength \<longrightarrow>
        int (length (buildRequestFrame commandId payloadBytes reportLength)) =
          (if reportLength = 65 then 65 else reportLength))
   \<and> buildRequestFrame commandId None reportLength =
        reportIdPrefix reportLength @ [0x02, word_of_int commandId, 0x00]
          @ replicate (nat (bodyLength reportLength - 3)) 0
   \<and> buildRequestFrame 0x7C None 64 = [0x02, 0x7C, 0x00] @ replicate 61 0
   \<and> buildRequestFrame 0x7C None 65 = 0x00 # [0x02, 0x7C, 0x00] @ replicate 61 0"
proof (intro conjI impI)
  let ?ps = "payloadList payloadBytes"
  show "map uint (buildRequestFrame commandId payloadBytes reportLength) =
      map uint (reportIdPrefix reportLength)
        @ [0x02, commandId mod 256, int (length ?ps) mod 256]
        @ map (\<lambda>value. value mod 256) ?ps
        @ replicate (nat (bodyLength reportLength - (3 + int (length ?ps)))) 0"
    by (simp add: buildRequestFrame_layout uint_word_of_int_8 uint_word_of_nat_8 o_def)
  show len: "length (buildRequestFrame commandId payloadBytes reportLength) =
        length (reportIdPrefix reportLength) + max (nat (bodyLength reportLength)) (3 + length ?ps)"
    by (simp add: buildRequestFrame_layout max_def) linarith
  show "int (length (buildRequestFrame commandId payloadBytes reportLength)) =
          (if reportLength = 65 then 65 else reportLength)"
    if "3 + int (length ?ps) \<le> bodyLength reportLength"
    using that unfolding len
    by (auto simp add: reportIdPrefix_def bodyLength_def max_def split: if_splits)
  show "buildRequestFrame commandId None reportLength =
        reportIdPrefix reportLength @ [0x02, word_of_int commandId, 0x00]
          @ replicate (nat (bodyLength reportLength - 3)) 0"
    by (simp add: buildRequestFrame_layout payloadList_def)
  show "buildRequestFrame 0x7C None 64 = [0x02, 0x7C, 0x00] @ replicate 61 0"
    by (simp add: buildRequestFrame_layout payloadList_def reportIdPrefix_def bodyLength_def)
  show "buildRequestFrame 0x7C None 65 = 0x00 # [0x02, 0x7C, 0x00] @ replicate 61 0"
    by (simp add: buildRequestFrame_layout payloadList_def reportIdPrefix_def bodyLength_def)
qed

text \<open>
  The theorem at a slider request whose command id has a bit above the low byte, for
  report lengths 64 and 65.
\<close>

theorem buildRequestFrame_padded_witness:
  "map uint (buildRequestFrame 0x168 (Some [0x05]) 64) = [0x02, 0x68, 0x01, 0x05] @ replicate 60 0
   \<and> length (buildRequestFrame 0x168 (Some [0x05]) 64) = 64
   \<and> length (buildRequestFrame 0x168 (Some [0x05]) 65) = 65"
  using buildRequestFrame_padded[of "0x168" "Some [0x05]" 64]
        buildRequestFrame_padded[of "0x168" "Some [0x05]" 65]
  by (simp add: payloadList_def reportIdPrefix_def bodyLength_def)

text \<open>
  The claim as first stated (the body has exactly the report length, for every report
  length and payload) fails for a report length below 3 and for a payload that does
  not fit.
\<close>

theorem buildRequestFrame_length_counterexample:
  "length (buildRequestFrame 0x7C None 2) \<noteq> 2
   \<and> length (buildRequestFrame 0x68 (Some (replicate 62 0x01)) 64) \<noteq> 64"
  by (simp add: buildRequestFrame_layout payloadList_def reportIdPrefix_def bodyLength_def)

section \<open>Decoding\<close>

text \<open>
  Claim C7. The \<open>BatteryStatus\<close> decoded from a status byte has \<open>isCharging\<close> equal
  to bit \<open>0x80\<close> (bit 7) of the byte and \<open>chargePercent\<close> equal to its low 7 bits
  (the byte modulo 128); byte \<open>0x85\<close> decodes to charging at 5 percent, byte \<open>0x64\<close>
  to not charging at 100 percent.
\<close>

theorem battery_decode:
  "isCharging (batteryStatusOfByte statusByte) = bit statusByte 7
   \<and> chargePercent (batteryStatusOfByte statusByte) = uint statusByte mod 128
   \<and> batteryStatusOfByte 0x85 = \<lparr>isCharging = True, chargePercent = 5\<rparr>
   \<and> batteryStatusOfByte 0x64 = \<lparr>isCharging = False, chargePercent = 100\<rparr>"
proof (intro conjI)
  have "(128::byte) = 2 ^ 7" by simp
  then have "(statusByte AND 0x80 = 0) = (\<not> bit statusByte 7)"
    by (simp only: and_exp_eq_0_iff_not_bit)
  then show "isCharging (batteryStatusOfByte statusByte) = bit statusByte 7"
    by (simp add: batteryStatusOfByte_def)
  have "uint (statusByte AND 0x7F) = uint statusByte AND 0x7F"
    by (simp add: uint_and)
  also have "\<dots> = uint statusByte mod 128"
    using take_bit_eq_mod[of 7 "uint statusByte"] take_bit_eq_mask[of 7 "uint statusByte"]
    by (simp add: mask_eq_exp_minus_1)
  finally show "chargePercent (batteryStatusOfByte statusByte) = uint statusByte mod 128"
    by (simp add: batteryStatusOfByte_def)
  show "batteryStatusOfByte 0x85 = \<lparr>isCharging = True, chargePercent = 5\<rparr>"
    by (simp add: batteryStatusOfByte_def)
  show "batteryStatusOfByte 0x64 = \<lparr>isCharging = False, chargePercent = 100\<rparr>"
    by (simp add: batteryStatusOfByte_def)
qed

section \<open>The retrying query engine\<close>

text \<open>
  Claim C5, as amended. When no device matches the vendor id, \<open>_query\<close> raises before
  any attempt. Otherwise it makes at most \<open>retries\<close> attempts. Provided
  \<open>time.sleep\<close> accepts the configured inter-command delay: if attempt \<open>k\<close> (counted
  from 0, \<open>k < retries\<close>) is the first whose response yields a payload, \<open>_query\<close>
  returns that payload and the world is the one after exactly \<open>k + 1\<close> attempts, so
  no further attempt is made; \<open>k = retries - 1\<close> is the case of a valid response on
  the last attempt. If none of the \<open>retries\<close> attempts yields a payload, or if
  \<open>time.sleep\<close> refuses the configured delay, it raises the \<open>RuntimeError\<close> "No valid
  response" after exactly \<open>retries\<close> attempts; the cause is the exception recorded by
  the last attempt that recorded one (no cause when none did), where an attempt
  records the exception \<open>_sendCommandOnce\<close> raised or, once it has a payload, the one
  the sleep raised.
\<close>

theorem query_attempts:
  "(findDevicePath hid self w = Inl e \<longrightarrow>
      query hid self commandId payloadBytes retries w = (Inl e, w))
   \<and> (findDevicePath hid self w = Inr devicePath \<longrightarrow>
        (time_sleep (commandDelaySeconds self) = None
           \<and> k < nat retries
           \<and> (\<forall>i<k. attemptPayload (attemptOutcome hid self devicePath commandId payloadBytes i w) = None)
           \<and> attemptPayload (attemptOutcome hid self devicePath commandId payloadBytes k w) = Some payload
         \<longrightarrow> query hid self commandId payloadBytes retries w =
               (Inr payload, worldAfter hid self devicePath commandId payloadBytes (Suc k) w))
      \<and> ((\<forall>i<nat retries.
              attemptPayload (attemptOutcome hid self devicePath commandId payloadBytes i w) = None)
           \<or> time_sleep (commandDelaySeconds self) \<noteq> None
         \<longrightarrow> query hid self commandId payloadBytes retries w =
               (Inl (RuntimeError (NoValidResponse commandId)
                       (lastErrorAfter hid self devicePath commandId payloadBytes (nat retries) w)),
                worldAfter hid self devicePath commandId payloadBytes (nat retries) w))
      \<and> (\<exists>m\<le>nat retries.
            snd (query hid self commandId payloadBytes retries w) =
              worldAfter hid self devicePath commandId payloadBytes m w))"
proof (intro conjI impI)
  assume "findDevicePath hid self w = Inl e"
  then show "query hid self commandId payloadBytes retries w = (Inl e, w)"
    by (simp add: query_def)
next
  assume dp: "findDevicePath hid self w = Inr devicePath"
  then have q: "query hid self commandId payloadBytes retries w =
      queryLoop hid self devicePath commandId payloadBytes (nat retries) None w"
    by (simp add: query_def)
  {
    assume h: "time_sleep (commandDelaySeconds self) = None
           \<and> k < nat retries
           \<and> (\<forall>i<k. attemptPayload (attemptOutcome hid self devicePath commandId payloadBytes i w) = None)
           \<and> attemptPayload (attemptOutcome hid self devicePath commandId payloadBytes k w) = Some payload"
    then have sl: "time_sleep (commandDelaySeconds self) = None"
      by simp
    from h show "query hid self commandId payloadBytes retries w =
               (Inr payload, worldAfter hid self devicePath commandId payloadBytes (Suc k) w)"
      unfolding q by (intro queryLoop_success) (simp_all add: attemptReturns_accepted[OF sl])
  }
  {
    assume "(\<forall>i<nat retries.
              attemptPayload (attemptOutcome hid self devicePath commandId payloadBytes i w) = None)
           \<or> time_sleep (commandDelaySeconds self) \<noteq> None"
    then have "\<forall>i<nat retries.
        attemptReturns self (attemptOutcome hid self devicePath commandId payloadBytes i w) = None"
      by (cases "time_sleep (commandDelaySeconds self)")
         (auto simp add: attemptReturns_accepted attemptReturns_refused)
    from queryLoop_exhausted[OF this, of None]
    show "query hid self commandId payloadBytes retries w =
               (Inl (RuntimeError (NoValidResponse commandId)
                       (lastErrorAfter hid self devicePath commandId payloadBytes (nat retries) w)),
                worldAfter hid self devicePath commandId payloadBytes (nat retries) w)"
      unfolding q by (simp split: option.splits)
  }
  show "\<exists>m\<le>nat retries.
            snd (query hid self commandId payloadBytes retries w) =
              worldAfter hid self devicePath commandId payloadBytes m w"
    unfolding q by (rule queryLoop_world)
qed

text \<open>
  The theorem on the scripted device, for a client with the default delay and three
  attempts allowed. The first attempt reads nothing for either report length, the
  second raises, and the third reads a status-ok frame in one run and a frame with a
  wrong status byte in the other.
\<close>

theorem query_attempts_witness:
  "query scriptedHid (init 0x9886 [64, 65] (Finite 0.08)) 0x7C None 3
       [Inr [], Inr [], Inl (OtherException ''boom''), Inr [0x02, 0x02, 0x01, 0x55]]
     = (Inr [0x55], [])
   \<and> query scriptedHid (init 0x9886 [64, 65] (Finite 0.08)) 0x7C None 3
       [Inr [], Inr [], Inl (OtherException ''boom''), Inr [0x00, 0x02, 0x01, 0x01, 0x55]]
     = (Inl (RuntimeError (NoValidResponse 0x7C) (Some (OtherException ''boom''))), [])"
proof
  let ?self = "init 0x9886 [64, 65] (Finite 0.08)"
  let ?good = "[Inr [], Inr [], Inl (OtherException ''boom''), Inr [0x02, 0x02, 0x01, 0x55]]
                 :: (exn + bytes) list"
  let ?bad = "[Inr [], Inr [], Inl (OtherException ''boom''), Inr [0x00, 0x02, 0x01, 0x01, 0x55]]
                 :: (exn + bytes) list"
  have three: "nat 3 = Suc (Suc (Suc 0))"
    by simp
  have dp: "findDevicePath scriptedHid ?self w = Inr [0x41]" for w
    by (simp add: scripted_defs)
  have sl: "time_sleep (commandDelaySeconds ?self) = None"
    by (simp add: init_def sleepMax_def)
  have g0: "attemptOutcome scriptedHid ?self [0x41] 0x7C None 0 ?good = Inr None"
    and g1: "attemptOutcome scriptedHid ?self [0x41] 0x7C None (Suc 0) ?good
               = Inl (OtherException ''boom'')"
    and g2: "attemptOutcome scriptedHid ?self [0x41] 0x7C None (Suc (Suc 0)) ?good
               = Inr (Some [0x02, 0x02, 0x01, 0x55])"
    and g3: "worldAfter scriptedHid ?self [0x41] 0x7C None (Suc (Suc (Suc 0))) ?good = []"
    by (simp_all add: attemptOutcome_def scripted_defs normalizeResponseFrame_def)
  have hit: "extractPayload [0x02, 0x02, 0x01, 0x55] = Some [0x55]"
    by (simp add: extractPayload_Some)
  show "query scriptedHid ?self 0x7C None 3 ?good = (Inr [0x55], [])"
    using query_attempts[where hid = scriptedHid and self = ?self and w = ?good
            and devicePath = "[0x41]" and commandId = "0x7C" and payloadBytes = None
            and retries = 3 and k = "Suc (Suc 0)" and payload = "[0x55]"
            and e = "OSError []"]
    unfolding three
    by (simp only: dp sl g0 g1 g2 g3 hit attemptPayload_simps All_less_Suc) simp
  have b0: "attemptOutcome scriptedHid ?self [0x41] 0x7C None 0 ?bad = Inr None"
    and b1: "attemptOutcome scriptedHid ?self [0x41] 0x7C None (Suc 0) ?bad
               = Inl (OtherException ''boom'')"
    and b2: "attemptOutcome scriptedHid ?self [0x41] 0x7C None (Suc (Suc 0)) ?bad
               = Inr (Some [0x02, 0x01, 0x01, 0x55])"
    and b3: "worldAfter scriptedHid ?self [0x41] 0x7C None (Suc (Suc (Suc 0))) ?bad = []"
    by (simp_all add: attemptOutcome_def scripted_defs normalizeResponseFrame_def)
  have miss: "extractPayload [0x02, 0x01, 0x01, 0x55] = None"
    by (simp add: extractPayload_None_iff)
  show "query scriptedHid ?self 0x7C None 3 ?bad
     = (Inl (RuntimeError (NoValidResponse 0x7C) (Some (OtherException ''boom''))), [])"
    using query_attempts[where hid = scriptedHid and self = ?self and w = ?bad
            and devicePath = "[0x41]" and commandId = "0x7C" and payloadBytes = None
            and retries = 3 and k = 0 and payload = "[]" and e = "OSError []"]
    unfolding three
    by (simp only: dp sl b0 b1 b2 b3 miss attemptPayload_simps attemptError_simps All_less_Suc
          lastErrorAfter.simps) simp
qed

text \<open>
  The claim as first stated (the first attempt whose response yields a payload
  returns it) fails for a client built with a delay that \<open>time.sleep\<close> refuses: with
  \<open>commandDelaySeconds = -1\<close> the first attempt obtains the payload \<open>[0x55]\<close>, the
  sleep raises \<open>ValueError\<close> inside the \<open>try\<close>, and the query goes on to raise "No
  valid response" with that \<open>ValueError\<close> as cause.
\<close>

theorem query_attempts_counterexample:
  "attemptPayload
       (attemptOutcome scriptedHid (init 0x9886 [64, 65] (Finite (- 1))) [0x41] 0x7C None 0
          [Inr [0x02, 0x02, 0x01, 0x55]]) = Some [0x55]
   \<and> query scriptedHid (init 0x9886 [64, 65] (Finite (- 1))) 0x7C None 3
       [Inr [0x02, 0x02, 0x01, 0x55]]
     = (Inl (RuntimeError (NoValidResponse 0x7C) (Some ValueError)), [])"
proof
  let ?self = "init 0x9886 [64, 65] (Finite (- 1))"
  have first: "sendCommandOnce scriptedHid ?self [0x41] 0x7C None [Inr [0x02, 0x02, 0x01, 0x55]]
      = (Inr (Some [0x02, 0x02, 0x01, 0x55]), [])"
    and later: "sendCommandOnce scriptedHid ?self [0x41] 0x7C None [] = (Inr None, [])"
    by (simp_all add: scripted_defs normalizeResponseFrame_def)
  have hit: "extractPayload [0x02, 0x02, 0x01, 0x55] = Some [0x55]"
    by (simp add: extractPayload_Some)
  have refused: "time_sleep (commandDelaySeconds ?self) = Some ValueError"
    by (simp add: init_def sleepMax_def)
  show "attemptPayload
       (attemptOutcome scriptedHid ?self [0x41] 0x7C None 0 [Inr [0x02, 0x02, 0x01, 0x55]])
      = Some [0x55]"
    by (simp add: attemptOutcome_0 first attemptPayload_simps hit)
  have dp: "findDevicePath scriptedHid ?self w = Inr [0x41]" for w
    by (simp add: scripted_defs)
  have three: "nat 3 = Suc (Suc (Suc 0))"
    by simp
  show "query scriptedHid ?self 0x7C None 3 [Inr [0x02, 0x02, 0x01, 0x55]]
     = (Inl (RuntimeError (NoValidResponse 0x7C) (Some ValueError)), [])"
    unfolding query_def dp three
    by (simp add: first later hit refused)
qed

section \<open>The battery read\<close>

text \<open>
  Claim C2, as amended. \<open>getBatteryStatus\<close> runs up to \<open>retries\<close> cycles (6 by
  default), each one query and one decoding. A payload is accepted exactly when it has
  a status byte and the decoded \<open>chargePercent\<close> is in \<open>[0, 100]\<close>. The first cycle
  \<open>k < retries\<close> with an accepted payload, every earlier cycle having obtained a payload
  that is empty or decodes out of range, ends the call: the decoded value is returned,
  it replaces the cached last-good value, and no further cycle runs. When every one of
  the \<open>retries\<close> cycles obtains a payload and that payload is empty or decodes out of
  range, the cached value is returned if there is one, and only without a cache the
  call raises "Could not read a sane battery value"; the session state is left as it
  was. A cycle whose query raises (no valid response, no device) ends the call with
  the exception of the query, whether or not a value is cached.
\<close>

theorem getBatteryStatus_retry_fallback:
  "(k < nat retries
      \<and> (\<forall>i<k. \<exists>p. cycleResult hid self i w = Inr p \<and> \<not> accepted p)
      \<and> cycleResult hid self k w = Inr payloadBytes \<and> accepted payloadBytes
    \<longrightarrow> 0 \<le> chargePercent (batteryStatusOfByte (payloadBytes ! 0))
        \<and> chargePercent (batteryStatusOfByte (payloadBytes ! 0)) \<le> 100
        \<and> getBatteryStatus hid self retries w =
             (Inr (batteryStatusOfByte (payloadBytes ! 0)),
              self\<lparr>lastGoodBatteryStatus := Some (batteryStatusOfByte (payloadBytes ! 0))\<rparr>,
              cycleWorld hid self (Suc k) w))
   \<and> ((\<forall>i<nat retries. \<exists>p. cycleResult hid self i w = Inr p \<and> \<not> accepted p)
    \<longrightarrow> getBatteryStatus hid self retries w =
          (case lastGoodBatteryStatus self of
             Some cached \<Rightarrow> (Inr cached, self, cycleWorld hid self (nat retries) w)
           | None \<Rightarrow>
               (Inl (RuntimeError NoSaneBatteryValue None), self,
                cycleWorld hid self (nat retries) w)))
   \<and> (k < nat retries
      \<and> (\<forall>i<k. \<exists>p. cycleResult hid self i w = Inr p \<and> \<not> accepted p)
      \<and> cycleResult hid self k w = Inl e
    \<longrightarrow> getBatteryStatus hid self retries w = (Inl e, self, cycleWorld hid self (Suc k) w))
   \<and> (accepted p \<longleftrightarrow>
        p \<noteq> [] \<and> 0 \<le> chargePercent (batteryStatusOfByte (p ! 0))
               \<and> chargePercent (batteryStatusOfByte (p ! 0)) \<le> 100)"
proof (intro conjI impI)
  assume h: "k < nat retries
      \<and> (\<forall>i<k. \<exists>p. cycleResult hid self i w = Inr p \<and> \<not> accepted p)
      \<and> cycleResult hid self k w = Inr payloadBytes \<and> accepted payloadBytes"
  then show "0 \<le> chargePercent (batteryStatusOfByte (payloadBytes ! 0))"
    and "chargePercent (batteryStatusOfByte (payloadBytes ! 0)) \<le> 100"
    by (simp_all add: accepted_def saneBattery_def)
  from h have "k < nat retries"
    and "\<forall>i<k. \<exists>p. cycleResult hid self i w = Inr p \<and> \<not> accepted p"
    by simp_all
  from battery_first_settled[OF this] h
  show "getBatteryStatus hid self retries w =
             (Inr (batteryStatusOfByte (payloadBytes ! 0)),
              self\<lparr>lastGoodBatteryStatus := Some (batteryStatusOfByte (payloadBytes ! 0))\<rparr>,
              cycleWorld hid self (Suc k) w)"
    by (simp add: getBatteryStatus_def del: cycleWorld.simps)
next
  assume "\<forall>i<nat retries. \<exists>p. cycleResult hid self i w = Inr p \<and> \<not> accepted p"
  from battery_all_rejected[OF this]
  show "getBatteryStatus hid self retries w =
          (case lastGoodBatteryStatus self of
             Some cached \<Rightarrow> (Inr cached, self, cycleWorld hid self (nat retries) w)
           | None \<Rightarrow>
               (Inl (RuntimeError NoSaneBatteryValue None), self,
                cycleWorld hid self (nat retries) w))"
    by (simp add: getBatteryStatus_def)
next
  assume h: "k < nat retries
      \<and> (\<forall>i<k. \<exists>p. cycleResult hid self i w = Inr p \<and> \<not> accepted p)
      \<and> cycleResult hid self k w = Inl e"
  then have "k < nat retries"
    and "\<forall>i<k. \<exists>p. cycleResult hid self i w = Inr p \<and> \<not> accepted p"
    by simp_all
  from battery_first_settled[OF this] h
  show "getBatteryStatus hid self retries w = (Inl e, self, cycleWorld hid self (Suc k) w)"
    by (simp add: getBatteryStatus_def del: cycleWorld.simps)
next
  show "accepted p \<longleftrightarrow>
        p \<noteq> [] \<and> 0 \<le> chargePercent (batteryStatusOfByte (p ! 0))
               \<and> chargePercent (batteryStatusOfByte (p ! 0)) \<le> 100"
    by (simp add: accepted_def saneBattery_def)
qed

text \<open>
  The theorem on the scripted device: six cycles that all decode 127 percent, with
  \<open>{isCharging: false, chargePercent: 42}\<close> cached; a cycle that decodes 127
  percent, one with an empty payload and one that decodes byte \<open>0x85\<close>; and two
  rejected cycles on a fresh client.
\<close>

theorem getBatteryStatus_retry_fallback_witness:
  "getBatteryStatus scriptedHid
       ((init 0x9886 [64, 65] (Finite 0.08))
          \<lparr>lastGoodBatteryStatus := Some \<lparr>isCharging = False, chargePercent = 42\<rparr>\<rparr>) 6
       [Inr [0x02, 0x02, 0x01, 0x7F], Inr [0x02, 0x02, 0x01, 0x7F], Inr [0x02, 0x02, 0x01, 0x7F],
        Inr [0x02, 0x02, 0x01, 0x7F], Inr [0x02, 0x02, 0x01, 0x7F], Inr [0x02, 0x02, 0x01, 0x7F]]
     = (Inr \<lparr>isCharging = False, chargePercent = 42\<rparr>,
        (init 0x9886 [64, 65] (Finite 0.08))
          \<lparr>lastGoodBatteryStatus := Some \<lparr>isCharging = False, chargePercent = 42\<rparr>\<rparr>, [])
   \<and> getBatteryStatus scriptedHid
       ((init 0x9886 [64, 65] (Finite 0.08))
          \<lparr>lastGoodBatteryStatus := Some \<lparr>isCharging = False, chargePercent = 42\<rparr>\<rparr>) 6
       [Inr [0x02, 0x02, 0x01, 0x7F], Inr [0x02, 0x02, 0x00], Inr [0x02, 0x02, 0x01, 0x85]]
     = (Inr \<lparr>isCharging = True, chargePercent = 5\<rparr>,
        (init 0x9886 [64, 65] (Finite 0.08))
          \<lparr>lastGoodBatteryStatus := Some \<lparr>isCharging = True, chargePercent = 5\<rparr>\<rparr>, [])
   \<and> getBatteryStatus scriptedHid (init 0x9886 [64, 65] (Finite 0.08)) 2
       [Inr [0x02, 0x02, 0x00], Inr [0x02, 0x02, 0x01, 0x7F]]
     = (Inl (RuntimeError NoSaneBatteryValue None), init 0x9886 [64, 65] (Finite 0.08), [])"
proof (intro conjI)
  define fresh where "fresh = init 0x9886 [64, 65] (Finite 0.08)"
  define cached where "cached = fresh
          \<lparr>lastGoodBatteryStatus := Some \<lparr>isCharging = False, chargePercent = 42\<rparr>\<rparr>"
  let ?high = "Inr [0x02, 0x02, 0x01, 0x7F] :: exn + bytes"
  have "vendorId cached = 0x9886" and "reportLengths cached = 64 # [65]"
    and "time_sleep (commandDelaySeconds cached) = None"
    by (simp_all add: cached_def fresh_def init_def sleepMax_def)
  note qc = scripted_battery_reply[OF this]
  have "vendorId fresh = 0x9886" and "reportLengths fresh = 64 # [65]"
    and "time_sleep (commandDelaySeconds fresh) = None"
    by (simp_all add: fresh_def init_def sleepMax_def)
  note qf = scripted_battery_reply[OF this]
  have lg: "lastGoodBatteryStatus cached = Some \<lparr>isCharging = False, chargePercent = 42\<rparr>"
    and lf: "lastGoodBatteryStatus fresh = None"
    by (simp_all add: cached_def fresh_def init_def)
  have decoded: "batteryStatusOfByte ([0x85] ! 0) = \<lparr>isCharging = True, chargePercent = 5\<rparr>"
    by (simp add: batteryStatusOfByte_def)
  have six: "nat 6 = Suc (Suc (Suc (Suc (Suc (Suc 0)))))" and two: "nat 2 = Suc (Suc 0)"
    by simp_all
  note ev = cycleResult_Suc cycleResult_0 cycleWorld.simps fst_conv snd_conv
  note fallback =
    getBatteryStatus_retry_fallback[where hid = scriptedHid and self = cached
      and retries = 6 and w = "[?high, ?high, ?high, ?high, ?high, ?high]"
      and k = 0 and payloadBytes = "[]" and e = "OSError []" and p = "[]",
      unfolded six All_less_Suc, simplified ev qc]
  have "getBatteryStatus scriptedHid cached 6 [?high, ?high, ?high, ?high, ?high, ?high]
     = (Inr \<lparr>isCharging = False, chargePercent = 42\<rparr>, cached, [])"
    using fallback by (simp add: accepted_simps lg)
  then show "getBatteryStatus scriptedHid
       ((init 0x9886 [64, 65] (Finite 0.08))
          \<lparr>lastGoodBatteryStatus := Some \<lparr>isCharging = False, chargePercent = 42\<rparr>\<rparr>) 6
       [?high, ?high, ?high, ?high, ?high, ?high]
     = (Inr \<lparr>isCharging = False, chargePercent = 42\<rparr>,
        (init 0x9886 [64, 65] (Finite 0.08))
          \<lparr>lastGoodBatteryStatus := Some \<lparr>isCharging = False, chargePercent = 42\<rparr>\<rparr>, [])"
    unfolding cached_def fresh_def .
  note accept =
    getBatteryStatus_retry_fallback[where hid = scriptedHid and self = cached
      and retries = 6 and k = "Suc (Suc 0)" and payloadBytes = "[0x85]"
      and w = "[?high, Inr [0x02, 0x02, 0x00], Inr [0x02, 0x02, 0x01, 0x85]]"
      and e = "OSError []" and p = "[]",
      unfolded six All_less_Suc, simplified ev qc decoded]
  have "getBatteryStatus scriptedHid cached 6
       [?high, Inr [0x02, 0x02, 0x00], Inr [0x02, 0x02, 0x01, 0x85]]
     = (Inr \<lparr>isCharging = True, chargePercent = 5\<rparr>,
        cached\<lparr>lastGoodBatteryStatus := Some \<lparr>isCharging = True, chargePercent = 5\<rparr>\<rparr>, [])"
    using accept by (simp add: accepted_simps)
  then show "getBatteryStatus scriptedHid
       ((init 0x9886 [64, 65] (Finite 0.08))
          \<lparr>lastGoodBatteryStatus := Some \<lparr>isCharging = False, chargePercent = 42\<rparr>\<rparr>) 6
       [?high, Inr [0x02, 0x02, 0x00], Inr [0x02, 0x02, 0x01, 0x85]]
     = (Inr \<lparr>isCharging = True, chargePercent = 5\<rparr>,
        (init 0x9886 [64, 65] (Finite 0.08))
          \<lparr>lastGoodBatteryStatus := Some \<lparr>isCharging = True, chargePercent = 5\<rparr>\<rparr>, [])"
    unfolding cached_def fresh_def by (simp add: init_def)
  note nocache =
    getBatteryStatus_retry_fallback[where hid = scriptedHid and self = fresh
      and retries = 2 and w = "[Inr [0x02, 0x02, 0x00], ?high]"
      and k = 0 and payloadBytes = "[]" and e = "OSError []" and p = "[]",
      unfolded two All_less_Suc, simplified ev qf]
  have "getBatteryStatus scriptedHid fresh 2 [Inr [0x02, 0x02, 0x00], ?high]
     = (Inl (RuntimeError NoSaneBatteryValue None), fresh, [])"
    using nocache by (simp add: accepted_simps lf)
  then show "getBatteryStatus scriptedHid (init 0x9886 [64, 65] (Finite 0.08)) 2
       [Inr [0x02, 0x02, 0x00], ?high]
     = (Inl (RuntimeError NoSaneBatteryValue None), init 0x9886 [64, 65] (Finite 0.08), [])"
    unfolding fresh_def .
qed

text \<open>
  The claim as first stated (whenever every cycle yields an out-of-range or absent
  result and a value is cached, the cached value is returned) fails when the result
  is absent because the query obtained no payload: with
  \<open>{isCharging: false, chargePercent: 42}\<close> cached and a device that never answers,
  the first cycle's query raises "No valid response" and the call raises it too.
\<close>

theorem getBatteryStatus_fallback_counterexample:
  "getBatteryStatus scriptedHid
       ((init 0x9886 [64, 65] (Finite 0.08))
          \<lparr>lastGoodBatteryStatus := Some \<lparr>isCharging = False, chargePercent = 42\<rparr>\<rparr>) 6 []
     = (Inl (RuntimeError (NoValidResponse 0x7C) None),
        (init 0x9886 [64, 65] (Finite 0.08))
          \<lparr>lastGoodBatteryStatus := Some \<lparr>isCharging = False, chargePercent = 42\<rparr>\<rparr>, [])"
proof -
  have six: "nat 6 = Suc 5"
    by simp
  have v: "vendorId ((init 0x9886 [64, 65] (Finite 0.08))
          \<lparr>lastGoodBatteryStatus := Some \<lparr>isCharging = False, chargePercent = 42\<rparr>\<rparr>) = 0x9886"
    by (simp add: init_def)
  show ?thesis
    unfolding getBatteryStatus_def six getBatteryStatusLoop.simps scripted_silent_query[OF v]
    by simp
qed

text \<open>
  Claim C6. The cache of a session is sane when it is absent or holds a value with
  \<open>chargePercent\<close> in \<open>[0, 100]\<close>. A new client has a sane cache. From a sane cache,
  \<open>getBatteryStatus\<close> returns only values with \<open>chargePercent\<close> in \<open>[0, 100]\<close>, leaves
  the cache sane, and changes the session state only by storing the value it returns:
  a successful read of a value in range. The same holds of the battery entry of a
  snapshot. Every call of the public API keeps the cache sane, so it is sane after any
  sequence of calls on a new client, and a battery read after any such sequence
  returns a value in range.
\<close>

theorem battery_cache_invariant:
  "cacheSane (init vendorId' reportLengths' commandDelaySeconds')
   \<and> (cacheSane self \<and> getBatteryStatus hid self retries w = (r, self', w') \<longrightarrow>
        cacheSane self'
        \<and> (\<forall>b. r = Inr b \<longrightarrow> 0 \<le> chargePercent b \<and> chargePercent b \<le> 100)
        \<and> (self' \<noteq> self \<longrightarrow>
             (\<exists>b. r = Inr b \<and> 0 \<le> chargePercent b \<and> chargePercent b \<le> 100
                  \<and> self' = self\<lparr>lastGoodBatteryStatus := Some b\<rparr>)))
   \<and> (cacheSane self
        \<and> getSnapshot hid time self battery headset sidetone includeTimestamp w = (rs, selfs, ws) \<longrightarrow>
        cacheSane selfs
        \<and> (\<forall>snapshot b. rs = Inr snapshot \<and> batteryEntry snapshot = Some b \<longrightarrow>
              0 \<le> chargePercent b \<and> chargePercent b \<le> 100))
   \<and> (cacheSane self \<longrightarrow> cacheSane (fst (perform hid time operation (self, w))))
   \<and> cacheSane (fst (session hid time operations (init vendorId' reportLengths' commandDelaySeconds', w)))
   \<and> (session hid time operations (init vendorId' reportLengths' commandDelaySeconds', w) = (selfn, wn)
        \<and> fst (getBatteryStatus hid selfn retries wn) = Inr bn \<longrightarrow>
        0 \<le> chargePercent bn \<and> chargePercent bn \<le> 100)
   \<and> (cacheSane self \<longleftrightarrow>
        (\<forall>b. lastGoodBatteryStatus self = Some b \<longrightarrow>
           0 \<le> chargePercent b \<and> chargePercent b \<le> 100))"
proof (intro conjI impI)
  show "cacheSane (init vendorId' reportLengths' commandDelaySeconds')"
    by (rule cacheSane_init)
next
  assume h: "cacheSane self \<and> getBatteryStatus hid self retries w = (r, self', w')"
  then have c: "cacheSane self" and g: "getBatteryStatus hid self retries w = (r, self', w')"
    by simp_all
  note s = getBatteryStatus_sane[OF c g]
  from s show "cacheSane self'" by simp
  from s show "\<forall>b. r = Inr b \<longrightarrow> 0 \<le> chargePercent b \<and> chargePercent b \<le> 100"
    by (auto simp add: saneBattery_def)
  show "\<exists>b. r = Inr b \<and> 0 \<le> chargePercent b \<and> chargePercent b \<le> 100
            \<and> self' = self\<lparr>lastGoodBatteryStatus := Some b\<rparr>"
    if "self' \<noteq> self"
    using s that by (cases r) (auto simp add: saneBattery_def)
next
  assume h: "cacheSane self
        \<and> getSnapshot hid time self battery headset sidetone includeTimestamp w = (rs, selfs, ws)"
  then have c: "cacheSane self"
    and g: "getSnapshot hid time self battery headset sidetone includeTimestamp w = (rs, selfs, ws)"
    by simp_all
  note s = getSnapshot_sane[OF c g]
  from s show "cacheSane selfs" by simp
  from s show "\<forall>snapshot b. rs = Inr snapshot \<and> batteryEntry snapshot = Some b \<longrightarrow>
              0 \<le> chargePercent b \<and> chargePercent b \<le> 100"
    by (auto simp add: saneBattery_def)
next
  assume "cacheSane self"
  then show "cacheSane (fst (perform hid time operation (self, w)))"
    by (rule perform_sane)
next
  show reach: "cacheSane (fst (session hid time operations (init vendorId' reportLengths' commandDelaySeconds', w)))"
    by (rule session_sane) (simp add: cacheSane_init)
  assume h: "session hid time operations (init vendorId' reportLengths' commandDelaySeconds', w) = (selfn, wn)
        \<and> fst (getBatteryStatus hid selfn retries wn) = Inr bn"
  with reach have c: "cacheSane selfn" by simp
  obtain r' self'' w'' where g: "getBatteryStatus hid selfn retries wn = (r', self'', w'')"
    by (cases "getBatteryStatus hid selfn retries wn") auto
  from getBatteryStatus_sane[OF c g] g h
  show "0 \<le> chargePercent bn" and "chargePercent bn \<le> 100"
    by (auto simp add: saneBattery_def)
next
  show "cacheSane self \<longleftrightarrow>
        (\<forall>b. lastGoodBatteryStatus self = Some b \<longrightarrow>
           0 \<le> chargePercent b \<and> chargePercent b \<le> 100)"
    by (auto simp add: cacheSane_def saneBattery_def split: option.splits)
qed


text \<open>
  The theorem on the scripted device, for a session of two battery reads: the first
  decodes byte \<open>0x85\<close> and caches it, the second decodes 127 percent twice and falls
  back on the cache.
\<close>

theorem battery_cache_invariant_witness:
  "session scriptedHid (\<lambda>w. ()) [CallGetBatteryStatus 6, CallGetBatteryStatus 2]
       (init 0x9886 [64, 65] (Finite 0.08),
        [Inr [0x02, 0x02, 0x01, 0x85], Inr [0x02, 0x02, 0x01, 0x7F], Inr [0x02, 0x02, 0x01, 0x7F]])
     = ((init 0x9886 [64, 65] (Finite 0.08))
          \<lparr>lastGoodBatteryStatus := Some \<lparr>isCharging = True, chargePercent = 5\<rparr>\<rparr>, [])
   \<and> cacheSane ((init 0x9886 [64, 65] (Finite 0.08))
          \<lparr>lastGoodBatteryStatus := Some \<lparr>isCharging = True, chargePercent = 5\<rparr>\<rparr>)
   \<and> cacheSane (init 0x9886 [64, 65] (Finite 0.08))"
proof -
  define fresh where "fresh = init 0x9886 [64, 65] (Finite 0.08)"
  define cached where "cached = fresh
          \<lparr>lastGoodBatteryStatus := Some \<lparr>isCharging = True, chargePercent = 5\<rparr>\<rparr>"
  let ?high = "Inr [0x02, 0x02, 0x01, 0x7F] :: exn + bytes"
  let ?script = "[Inr [0x02, 0x02, 0x01, 0x85], ?high, ?high] :: (exn + bytes) list"
  let ?ops = "[CallGetBatteryStatus 6, CallGetBatteryStatus 2]"
  have "vendorId cached = 0x9886" and "reportLengths cached = 64 # [65]"
    and "time_sleep (commandDelaySeconds cached) = None"
    by (simp_all add: cached_def fresh_def init_def sleepMax_def)
  note qc = scripted_battery_reply[OF this]
  have "vendorId fresh = 0x9886" and "reportLengths fresh = 64 # [65]"
    and "time_sleep (commandDelaySeconds fresh) = None"
    by (simp_all add: fresh_def init_def sleepMax_def)
  note qf = scripted_battery_reply[OF this]
  have decoded: "batteryStatusOfByte 0x85 = \<lparr>isCharging = True, chargePercent = 5\<rparr>"
    by (simp add: batteryStatusOfByte_def)
  have six: "nat 6 = Suc (Suc (Suc (Suc (Suc (Suc 0)))))" and two: "nat 2 = Suc (Suc 0)"
    by simp_all
  have first: "getBatteryStatus scriptedHid fresh 6 ?script
      = (Inr \<lparr>isCharging = True, chargePercent = 5\<rparr>, cached, [?high, ?high])"
    using battery_first_settled[where hid = scriptedHid and self = fresh and k = 0
        and n = "nat 6" and w = ?script]
    by (simp add: getBatteryStatus_def cycleResult_0 qf accepted_simps decoded cached_def
          del: commandValue.simps)
  have lg: "lastGoodBatteryStatus cached = Some \<lparr>isCharging = True, chargePercent = 5\<rparr>"
    by (simp add: cached_def)
  note rejected =
    battery_all_rejected[where hid = scriptedHid and self = cached
      and n = "Suc (Suc 0)" and w = "[?high, ?high]", unfolded All_less_Suc,
      simplified cycleResult_Suc cycleResult_0 cycleWorld.simps qc fst_conv snd_conv]
  have second: "getBatteryStatus scriptedHid cached 2 [?high, ?high]
      = (Inr \<lparr>isCharging = True, chargePercent = 5\<rparr>, cached, [])"
    unfolding getBatteryStatus_def two
    using rejected by (simp add: accepted_simps lg del: getBatteryStatusLoop.simps)
  have run: "session scriptedHid (\<lambda>w. ()) ?ops (fresh, ?script) = (cached, [])"
    by (simp add: first second)
  note inv = battery_cache_invariant[where hid = scriptedHid and time = "\<lambda>w. ()"
      and operations = ?ops and vendorId' = "0x9886" and reportLengths' = "[64, 65]"
      and commandDelaySeconds' = "Finite 0.08"
      and w = ?script and self = fresh and retries = 6 and r = "Inr \<lparr>isCharging = True, chargePercent = 5\<rparr>"
      and self' = cached and w' = "[?high, ?high]"
      and operation = "CallGetBatteryStatus 6" and selfn = cached and wn = "[]"
      and bn = "\<lparr>isCharging = True, chargePercent = 5\<rparr>"
      and battery = False and headset = False and sidetone = False and includeTimestamp = False
      and rs = "Inr \<lparr>timestampEntry = None, batteryEntry = None, headsetEntry = None,
                       sidetoneEntry = None\<rparr>"
      and selfs = fresh and ws = ?script, folded fresh_def]
  from inv have "cacheSane fresh"
    and "cacheSane (fst (session scriptedHid (\<lambda>w. ()) ?ops (fresh, ?script)))"
    by blast+
  then have "cacheSane fresh" and "cacheSane cached"
    by (simp_all only: run fst_conv)
  with run show ?thesis
    unfolding cached_def fresh_def by simp
qed

section \<open>Slider values\<close>

text \<open>
  Claim C8. \<open>getSliderValue\<close> queries the slider command (\<open>0x68\<close>) with the
  requested slider id, \<open>sliderType & 0xFF\<close>, as payload. An exception of the query
  propagates. When the query returns a payload, the call raises the \<open>RuntimeError\<close>
  "Unexpected slider payload" carrying the payload unless the payload has at least 4
  bytes, byte 0 is \<open>0x68\<close> and byte 1 is the requested slider id; when the checks pass
  it returns the byte at index \<open>2 + (1 if saved else 0)\<close>.
\<close>

theorem getSliderValue_checks:
  "(query hid self 0x68 (Some [sliderType AND 0xFF]) 4 w = (Inl e, w')
      \<longrightarrow> getSliderValue hid self sliderType saved w = (Inl e, w'))
   \<and> (query hid self 0x68 (Some [sliderType AND 0xFF]) 4 w = (Inr payloadBytes, w')
      \<longrightarrow> (4 \<le> length payloadBytes \<and> uint (payloadBytes ! 0) = 0x68
            \<and> uint (payloadBytes ! 1) = sliderType AND 0xFF
          \<longrightarrow> getSliderValue hid self sliderType saved w =
                (Inr (uint (payloadBytes ! (2 + (if saved then 1 else 0)))), w'))
        \<and> (\<not> (4 \<le> length payloadBytes \<and> uint (payloadBytes ! 0) = 0x68
               \<and> uint (payloadBytes ! 1) = sliderType AND 0xFF)
          \<longrightarrow> getSliderValue hid self sliderType saved w =
                (Inl (RuntimeError (UnexpectedSlider payloadBytes) None), w')))"
  by (cases saved) (auto simp add: getSliderValue_cases and_255_mod numeral_3_eq_3 numeral_2_eq_2)

text \<open>
  The theorem on the scripted device answering with the payload
  \<open>[0x68, 0x05, 0x32, 0x28]\<close>: slider 5 reads 50, its saved value 40, and a request
  for slider 4 is refused.
\<close>

theorem getSliderValue_checks_witness:
  "getSliderValue scriptedHid (init 0x9886 [64, 65] (Finite 0.08)) 0x05 False
       [Inr [0x02, 0x02, 0x04, 0x68, 0x05, 0x32, 0x28]] = (Inr 50, [])
   \<and> getSliderValue scriptedHid (init 0x9886 [64, 65] (Finite 0.08)) 0x05 True
       [Inr [0x02, 0x02, 0x04, 0x68, 0x05, 0x32, 0x28]] = (Inr 40, [])
   \<and> getSliderValue scriptedHid (init 0x9886 [64, 65] (Finite 0.08)) 0x04 False
       [Inr [0x02, 0x02, 0x04, 0x68, 0x05, 0x32, 0x28]]
       = (Inl (RuntimeError (UnexpectedSlider [0x68, 0x05, 0x32, 0x28]) None), [])"
proof (intro conjI)
  note inst = getSliderValue_checks[where hid = scriptedHid and self = "init 0x9886 [64, 65] (Finite 0.08)"
      and w = "[Inr [0x02, 0x02, 0x04, 0x68, 0x05, 0x32, 0x28]]" and w' = "[]"
      and payloadBytes = "[0x68, 0x05, 0x32, 0x28]" and e = "OSError []"]
  show "getSliderValue scriptedHid (init 0x9886 [64, 65] (Finite 0.08)) 0x05 False
       [Inr [0x02, 0x02, 0x04, 0x68, 0x05, 0x32, 0x28]] = (Inr 50, [])"
    using inst[where sliderType = "0x05" and saved = False, simplified slider_reply]
    by simp
  show "getSliderValue scriptedHid (init 0x9886 [64, 65] (Finite 0.08)) 0x05 True
       [Inr [0x02, 0x02, 0x04, 0x68, 0x05, 0x32, 0x28]] = (Inr 40, [])"
    using inst[where sliderType = "0x05" and saved = True, simplified slider_reply]
    by simp
  show "getSliderValue scriptedHid (init 0x9886 [64, 65] (Finite 0.08)) 0x04 False
       [Inr [0x02, 0x02, 0x04, 0x68, 0x05, 0x32, 0x28]]
       = (Inl (RuntimeError (UnexpectedSlider [0x68, 0x05, 0x32, 0x28]) None), [])"
    using inst[where sliderType = "0x04" and saved = False, simplified slider_reply]
    by simp
qed

text \<open>
  Claim C9. For every integer \<open>sliderType\<close>, \<open>getSliderValue\<close> behaves as it does for
  \<open>sliderType mod 256\<close>, on every device and in every world; so two arguments
  congruent modulo 256 give the same call. The call returns a value exactly when the
  payload of the response has at least 4 bytes, byte 0 equal to \<open>0x68\<close> and byte 1
  equal to \<open>sliderType mod 256\<close>. What it sends is read off the log of a recording
  device, whatever the device behind it does: every frame the call hands to
  \<open>send_feature_report\<close> or to \<open>write\<close> is the frame \<open>_buildRequestFrame\<close> builds for
  the command \<open>0x68\<close>, the one payload byte \<open>sliderType & 0xFF\<close> and one of the
  client's report lengths, that is \<open>[0x02, 0x68, 0x01, sliderType mod 256]\<close> and
  padding (after the report-id byte for the length 65), so the selector byte on the
  wire is \<open>sliderType mod 256\<close>; and a call that returns a value has sent at least
  one such frame.
\<close>

theorem getSliderValue_mod_256:
  "getSliderValue hid self sliderType saved w =
     getSliderValue hid self (sliderType mod 256) saved w
   \<and> (sliderType mod 256 = sliderType' mod 256 \<longrightarrow>
        getSliderValue hid self sliderType saved w = getSliderValue hid self sliderType' saved w)
   \<and> snd (getSliderValue hid self sliderType saved w) =
        snd (query hid self (commandValue Command_getSliderValue) (Some [sliderType mod 256]) 4 w)
   \<and> ((\<exists>value. fst (getSliderValue hid self sliderType saved w) = Inr value) \<longleftrightarrow>
        (\<exists>payloadBytes.
           fst (query hid self (commandValue Command_getSliderValue) (Some [sliderType mod 256]) 4 w)
             = Inr payloadBytes
           \<and> 4 \<le> length payloadBytes \<and> uint (payloadBytes ! 0) = 0x68
           \<and> uint (payloadBytes ! 1) = sliderType mod 256))
   \<and> (\<exists>sent.
        fst (snd (getSliderValue (recording hid) self sliderType saved (logged, w))) = logged @ sent
        \<and> (\<forall>frame\<in>set sent. \<exists>reportLength\<in>set (reportLengths self).
              frame = buildRequestFrame (commandValue Command_getSliderValue)
                        (Some [sliderType AND 0xFF]) reportLength
              \<and> frame = reportIdPrefix reportLength
                        @ [0x02, 0x68, 0x01, word_of_int (sliderType mod 256)]
                        @ replicate (nat (bodyLength reportLength - 4)) 0)
        \<and> ((\<exists>value. fst (getSliderValue (recording hid) self sliderType saved (logged, w))
                        = Inr value) \<longrightarrow> sent \<noteq> []))
   \<and> buildRequestFrame (commandValue Command_getSliderValue) (Some [sliderType AND 0xFF]) anyLength =
        reportIdPrefix anyLength @ [0x02, 0x68, 0x01, word_of_int (sliderType mod 256)]
          @ replicate (nat (bodyLength anyLength - 4)) 0"
proof (intro conjI impI)
  have reduce: "getSliderValue hid self s saved w = getSliderValue hid self (s mod 256) saved w"
    for s
    by (simp add: getSliderValue_cases split: prod.splits sum.splits)
  show "getSliderValue hid self sliderType saved w =
     getSliderValue hid self (sliderType mod 256) saved w"
    by (rule reduce)
  show "getSliderValue hid self sliderType saved w = getSliderValue hid self sliderType' saved w"
    if "sliderType mod 256 = sliderType' mod 256"
    using that reduce[of sliderType] reduce[of sliderType'] by simp
  show "snd (getSliderValue hid self sliderType saved w) =
        snd (query hid self (commandValue Command_getSliderValue) (Some [sliderType mod 256]) 4 w)"
    by (simp add: getSliderValue_world)
  show "(\<exists>value. fst (getSliderValue hid self sliderType saved w) = Inr value) \<longleftrightarrow>
        (\<exists>payloadBytes.
           fst (query hid self (commandValue Command_getSliderValue) (Some [sliderType mod 256]) 4 w)
             = Inr payloadBytes
           \<and> 4 \<le> length payloadBytes \<and> uint (payloadBytes ! 0) = 0x68
           \<and> uint (payloadBytes ! 1) = sliderType mod 256)"
    by (auto simp add: getSliderValue_cases split: prod.splits sum.splits)
  have frame: "buildRequestFrame (commandValue Command_getSliderValue)
                 (Some [sliderType AND 0xFF]) reportLength
      = reportIdPrefix reportLength @ [0x02, 0x68, 0x01, word_of_int (sliderType mod 256)]
          @ replicate (nat (bodyLength reportLength - 4)) 0" for reportLength
    using slider_frame[of sliderType reportLength] by (simp add: and_255_mod)
  from getSliderValue_sent[of hid self sliderType saved logged w]
  show "\<exists>sent.
        fst (snd (getSliderValue (recording hid) self sliderType saved (logged, w))) = logged @ sent
        \<and> (\<forall>frame\<in>set sent. \<exists>reportLength\<in>set (reportLengths self).
              frame = buildRequestFrame (commandValue Command_getSliderValue)
                        (Some [sliderType AND 0xFF]) reportLength
              \<and> frame = reportIdPrefix reportLength
                        @ [0x02, 0x68, 0x01, word_of_int (sliderType mod 256)]
                        @ replicate (nat (bodyLength reportLength - 4)) 0)
        \<and> ((\<exists>value. fst (getSliderValue (recording hid) self sliderType saved (logged, w))
                        = Inr value) \<longrightarrow> sent \<noteq> [])"
    unfolding frame
    using getSliderValue_grew[of hid self sliderType saved "(logged, w)"]
    by fastforce
  show "buildRequestFrame (commandValue Command_getSliderValue) (Some [sliderType AND 0xFF]) anyLength =
        reportIdPrefix anyLength @ [0x02, 0x68, 0x01, word_of_int (sliderType mod 256)]
          @ replicate (nat (bodyLength anyLength - 4)) 0"
    by (rule frame)
qed

text \<open>
  The theorem at the arguments \<open>0x105\<close> and \<open>-251\<close>, both congruent to 5, on the
  scripted device with a log in front: the one frame sent carries the selector byte
  \<open>0x05\<close>, and the device's answer for slider 5 is accepted.
\<close>

theorem getSliderValue_mod_256_witness:
  "getSliderValue (recording scriptedHid) (init 0x9886 [64, 65] (Finite 0.08)) 0x105 False
       ([], [Inr [0x02, 0x02, 0x04, 0x68, 0x05, 0x32, 0x28]])
     = (Inr 50, ([[0x02, 0x68, 0x01, 0x05] @ replicate 60 0], []))
   \<and> getSliderValue (recording scriptedHid) (init 0x9886 [64, 65] (Finite 0.08)) (- 251) True
       ([], [Inr [0x02, 0x02, 0x04, 0x68, 0x05, 0x32, 0x28]])
     = (Inr 40, ([[0x02, 0x68, 0x01, 0x05] @ replicate 60 0], []))"
proof -
  define self where "self = init 0x9886 [64, 65] (Finite 0.08)"
  define start :: "bytes list \<times> (exn + bytes) list"
    where "start = ([], [Inr [0x02, 0x02, 0x04, 0x68, 0x05, 0x32, 0x28]])"
  have frame: "buildRequestFrame 0x68 (Some [0x05]) 64 = [0x02, 0x68, 0x01, 0x05] @ replicate 60 0"
    using slider_frame[of "0x05" 64] by (simp add: reportIdPrefix_def bodyLength_def)
  have reply: "query (recording scriptedHid) self 0x68 (Some [0x05]) 4 start
      = (Inr [0x68, 0x05, 0x32, 0x28], ([[0x02, 0x68, 0x01, 0x05] @ replicate 60 0], []))"
    unfolding self_def start_def frame[symmetric]
    using recorded_slider_reply[of "0x68" "Some [0x05]" "[]"] by simp
  have m: "(0x05 :: int) mod 256 = 0x05"
    by simp
  have five: "getSliderValue (recording scriptedHid) self 0x05 saved start
      = (Inr (if saved then 40 else 50), ([[0x02, 0x68, 0x01, 0x05] @ replicate 60 0], []))"
    for saved
    unfolding getSliderValue_cases m reply by simp
  note inst = getSliderValue_mod_256[where hid = "recording scriptedHid" and self = self
      and w = start and sliderType' = "0x05" and logged = "[]"]
  have "getSliderValue (recording scriptedHid) self 0x105 False start
      = getSliderValue (recording scriptedHid) self 0x05 False start"
    using inst[where sliderType = "0x105" and saved = False, THEN conjunct2, THEN conjunct1]
    by simp
  moreover have "getSliderValue (recording scriptedHid) self (- 251) True start
      = getSliderValue (recording scriptedHid) self 0x05 True start"
    using inst[where sliderType = "- 251" and saved = True, THEN conjunct2, THEN conjunct1]
    by simp
  ultimately have "getSliderValue (recording scriptedHid) self 0x105 False start
      = (Inr 50, ([[0x02, 0x68, 0x01, 0x05] @ replicate 60 0], []))
    \<and> getSliderValue (recording scriptedHid) self (- 251) True start
      = (Inr 40, ([[0x02, 0x68, 0x01, 0x05] @ replicate 60 0], []))"
    by (simp only: five if_True if_False simp_thms)
  then show ?thesis
    unfolding self_def start_def .
qed

section \<open>Noise-gate mode\<close>

text \<open>
  Claim C10. \<open>getNoiseGateMode\<close> queries the noise-gate command (\<open>0x6A\<close>) with no
  payload, whatever \<open>saved\<close> is, and the world after the call does not depend on
  \<open>saved\<close>. After checking that the payload of the response has at least 3 bytes and
  byte 0 equal to \<open>0x6A\<close> (else it raises "Unexpected noise gate payload"), it returns
  byte 1 when \<open>saved\<close> is false and byte 2 when \<open>saved\<close> is true. What it sends is
  read off the log of a recording device, whatever the device behind it does: every
  frame the call hands to \<open>send_feature_report\<close> or to \<open>write\<close> is the frame
  \<open>_buildRequestFrame\<close> builds for the command \<open>0x6A\<close>, no payload and one of the
  client's report lengths, that is \<open>[0x02, 0x6A, 0x00]\<close> and padding (after the
  report-id byte for the length 65), and its length byte, the third of the body, is
  \<open>0x00\<close>; and a call that returns a value has sent at least one such frame.
\<close>

theorem getNoiseGateMode_saved:
  "getNoiseGateMode hid self saved w =
     (case query hid self (commandValue Command_getNoiseGateMode) None 4 w of
        (Inl e, w') \<Rightarrow> (Inl e, w')
      | (Inr payloadBytes, w') \<Rightarrow>
          if 3 \<le> length payloadBytes \<and> uint (payloadBytes ! 0) = 0x6A
          then (Inr (uint (payloadBytes ! (if saved then 2 else 1))), w')
          else (Inl (RuntimeError (UnexpectedNoiseGate payloadBytes) None), w'))
   \<and> snd (getNoiseGateMode hid self True w) = snd (getNoiseGateMode hid self False w)
   \<and> (\<exists>sent.
        fst (snd (getNoiseGateMode (recording hid) self saved (logged, w))) = logged @ sent
        \<and> (\<forall>frame\<in>set sent. \<exists>reportLength\<in>set (reportLengths self).
              frame = buildRequestFrame (commandValue Command_getNoiseGateMode) None reportLength
              \<and> frame = reportIdPrefix reportLength @ [0x02, 0x6A, 0x00]
                          @ replicate (nat (bodyLength reportLength - 3)) 0
              \<and> frame ! (length (reportIdPrefix reportLength) + 2) = 0x00)
        \<and> ((\<exists>value. fst (getNoiseGateMode (recording hid) self saved (logged, w)) = Inr value)
              \<longrightarrow> sent \<noteq> []))
   \<and> buildRequestFrame (commandValue Command_getNoiseGateMode) None anyLength =
        reportIdPrefix anyLength @ [0x02, 0x6A, 0x00]
          @ replicate (nat (bodyLength anyLength - 3)) 0"
proof (intro conjI)
  show "getNoiseGateMode hid self saved w =
     (case query hid self (commandValue Command_getNoiseGateMode) None 4 w of
        (Inl e, w') \<Rightarrow> (Inl e, w')
      | (Inr payloadBytes, w') \<Rightarrow>
          if 3 \<le> length payloadBytes \<and> uint (payloadBytes ! 0) = 0x6A
          then (Inr (uint (payloadBytes ! (if saved then 2 else 1))), w')
          else (Inl (RuntimeError (UnexpectedNoiseGate payloadBytes) None), w'))"
    by (simp add: getNoiseGateMode_cases)
  show "snd (getNoiseGateMode hid self True w) = snd (getNoiseGateMode hid self False w)"
    by (simp add: getNoiseGateMode_world)
  have frame: "buildRequestFrame (commandValue Command_getNoiseGateMode) None reportLength
      = reportIdPrefix reportLength @ [0x02, 0x6A, 0x00]
          @ replicate (nat (bodyLength reportLength - 3)) 0" for reportLength
    using noiseGate_frame[of reportLength] by simp
  have byte: "(reportIdPrefix reportLength @ [0x02, 0x6A, 0x00]
          @ replicate (nat (bodyLength reportLength - 3)) 0)
        ! (length (reportIdPrefix reportLength) + 2) = (0x00 :: byte)" for reportLength
    by (simp add: nth_append)
  from getNoiseGateMode_sent[of hid self saved logged w]
  show "\<exists>sent.
        fst (snd (getNoiseGateMode (recording hid) self saved (logged, w))) = logged @ sent
        \<and> (\<forall>frame\<in>set sent. \<exists>reportLength\<in>set (reportLengths self).
              frame = buildRequestFrame (commandValue Command_getNoiseGateMode) None reportLength
              \<and> frame = reportIdPrefix reportLength @ [0x02, 0x6A, 0x00]
                          @ replicate (nat (bodyLength reportLength - 3)) 0
              \<and> frame ! (length (reportIdPrefix reportLength) + 2) = 0x00)
        \<and> ((\<exists>value. fst (getNoiseGateMode (recording hid) self saved (logged, w)) = Inr value)
              \<longrightarrow> sent \<noteq> [])"
    unfolding frame
    using byte getNoiseGateMode_grew[of hid self saved "(logged, w)"]
    by fastforce
  show "buildRequestFrame (commandValue Command_getNoiseGateMode) None anyLength =
        reportIdPrefix anyLength @ [0x02, 0x6A, 0x00]
          @ replicate (nat (bodyLength anyLength - 3)) 0"
    by (rule frame)
qed

text \<open>
  The theorem on the scripted device with a log in front, answering with the payload
  \<open>[0x6A, 0x01, 0x02]\<close>: the one frame sent is \<open>[0x02, 0x6A, 0x00]\<close> and 61 zero
  bytes.
\<close>

theorem getNoiseGateMode_saved_witness:
  "getNoiseGateMode (recording scriptedHid) (init 0x9886 [64, 65] (Finite 0.08)) False
       ([], [Inr [0x02, 0x02, 0x03, 0x6A, 0x01, 0x02]])
     = (Inr 1, ([[0x02, 0x6A, 0x00] @ replicate 61 0], []))
   \<and> getNoiseGateMode (recording scriptedHid) (init 0x9886 [64, 65] (Finite 0.08)) True
       ([], [Inr [0x02, 0x02, 0x03, 0x6A, 0x01, 0x02]])
     = (Inr 2, ([[0x02, 0x6A, 0x00] @ replicate 61 0], []))"
proof -
  define self where "self = init 0x9886 [64, 65] (Finite 0.08)"
  define start :: "bytes list \<times> (exn + bytes) list"
    where "start = ([], [Inr [0x02, 0x02, 0x03, 0x6A, 0x01, 0x02]])"
  have frame: "buildRequestFrame 0x6A None 64 = [0x02, 0x6A, 0x00] @ replicate 61 0"
    using noiseGate_frame[of 64] by (simp add: reportIdPrefix_def bodyLength_def)
  have reply: "query (recording scriptedHid) self (commandValue Command_getNoiseGateMode) None 4 start
      = (Inr [0x6A, 0x01, 0x02], ([[0x02, 0x6A, 0x00] @ replicate 61 0], []))"
    unfolding self_def start_def frame[symmetric]
    using recorded_noiseGate_reply[of "0x6A" None "[]"] by simp
  have "getNoiseGateMode (recording scriptedHid) self False start
      = (Inr 1, ([[0x02, 0x6A, 0x00] @ replicate 61 0], []))"
    using getNoiseGateMode_saved[where hid = "recording scriptedHid" and self = self
      and w = start and logged = "[]" and saved = False, THEN conjunct1, unfolded reply]
    by simp
  moreover have "getNoiseGateMode (recording scriptedHid) self True start
      = (Inr 2, ([[0x02, 0x6A, 0x00] @ replicate 61 0], []))"
    using getNoiseGateMode_saved[where hid = "recording scriptedHid" and self = self
      and w = start and logged = "[]" and saved = True, THEN conjunct1, unfolded reply]
    by simp
  ultimately show ?thesis
    unfolding self_def start_def by (rule conjI)
qed

end
